theory Spec2Isabelle
  imports Complex_Main "HOL-Library.Word" "HOL-Library.Log_Nat" "HOL-Library.Sublist"
begin

section \<open>Python values shared by both modules\<close>

text \<open>
  Exceptions are values: a function that may raise returns \<open>exn + 'a\<close>, with \<open>Inl\<close> the
  exception. Only the exception classes the modelled code can meet are listed.
\<close>

datatype exn = ValueError | KeyError | OSError | TypeError

type_synonym path = string

text \<open>
  \<open>str.upper()\<close> and \<open>str.lower()\<close>. A \<open>string\<close> is a list of bytes (UTF-8); the two
  functions change the ASCII letters and leave every other byte alone, which is what
  Python does on ASCII text.
\<close>

definition upper_char :: "char \<Rightarrow> char" where
  "upper_char c =
     (let n = (of_char c :: nat) in if 97 \<le> n \<and> n \<le> 122 then char_of (n - 32) else c)"

definition lower_char :: "char \<Rightarrow> char" where
  "lower_char c =
     (let n = (of_char c :: nat) in if 65 \<le> n \<and> n \<le> 90 then char_of (n + 32) else c)"

definition upper :: "string \<Rightarrow> string" where
  "upper s = map upper_char s"

definition lower :: "string \<Rightarrow> string" where
  "lower s = map lower_char s"

text \<open>The non-ASCII string literals of the source, as their UTF-8 bytes.\<close>

definition name_M30T :: string where
  "name_M30T = map char_of
    [229, 164, 167, 231, 150, 134, 32, 77, 51, 48, 84 :: nat]"

definition name_H20T :: string where
  "name_H20T = map char_of
    [229, 164, 167, 231, 150, 134, 32, 72, 50, 48, 84 :: nat]"

definition name_H30T :: string where
  "name_H30T = map char_of
    [229, 164, 167, 231, 150, 134, 32, 72, 51, 48, 84 :: nat]"

definition name_M2EA :: string where
  "name_M2EA = map char_of
    [229, 164, 167, 231, 150, 134, 32, 229, 190, 161, 50, 232, 161, 140, 228, 184, 154,
     232, 191, 155, 233, 152, 182, 231, 137, 136 :: nat]"

definition description_M30T :: string where
  "description_M30T = map char_of
    [229, 164, 167, 231, 150, 134, 77, 51, 48, 84, 230, 151, 160, 228, 186, 186, 230,
     156, 186, 229, 134, 133, 231, 189, 174, 231, 131, 173, 231, 186, 162, 229, 164,
     150, 231, 155, 184, 230, 156, 186 :: nat]"

definition description_H20T :: string where
  "description_H20T = map char_of
    [229, 164, 167, 231, 150, 134, 72, 50, 48, 84, 231, 131, 173, 231, 186, 162, 229,
     164, 150, 228, 186, 145, 229, 143, 176, 231, 155, 184, 230, 156, 186 :: nat]"

definition description_H30T :: string where
  "description_H30T = map char_of
    [229, 164, 167, 231, 150, 134, 72, 51, 48, 84, 233, 171, 152, 230, 184, 169, 231,
     131, 173, 231, 186, 162, 229, 164, 150, 228, 186, 145, 229, 143, 176, 231, 155,
     184, 230, 156, 186 :: nat]"

definition description_M2EA :: string where
  "description_M2EA = map char_of
    [229, 164, 167, 231, 150, 134, 229, 190, 161, 50, 232, 161, 140, 228, 184, 154, 232,
     191, 155, 233, 152, 182, 231, 137, 136, 231, 131, 173, 231, 186, 162, 229, 164,
     150, 231, 155, 184, 230, 156, 186 :: nat]"

definition mock_warning :: string where
  "mock_warning = map char_of
    [230, 173, 164, 228, 184, 186, 230, 168, 161, 230, 139, 159, 230, 149, 176, 230,
     141, 174, 239, 188, 140, 233, 157, 158, 231, 156, 159, 229, 174, 158, 230, 184,
     169, 229, 186, 166, 229, 128, 188 :: nat]"

definition times_sign :: string where
  "times_sign = map char_of
    [195, 151 :: nat]"

definition celsius_unit :: string where
  "celsius_unit = map char_of
    [67, 101, 108, 115, 105, 117, 115, 32, 40, 48, 46, 49, 194, 176, 67, 32, 112, 114,
     101, 99, 105, 115, 105, 111, 110, 41 :: nat]"

section \<open>config.py: the device registry\<close>

record drone_model =
  name :: string
  temperature_range :: "int \<times> int"
  resolution :: "int \<times> int"
  pixel_size :: real
  format_support :: "string list"
  spectral_range :: "real \<times> real"
  thermal_sensitivity :: real
  description :: string

text \<open>\<open>Config.DRONE_MODELS\<close>: a dict literal, kept in insertion order.\<close>

definition DRONE_MODELS :: "(string \<times> drone_model) list" where
  "DRONE_MODELS =
     [(''M30T'', \<lparr>name = name_M30T, temperature_range = (- 20, 400), resolution = (640, 512),
         pixel_size = 12, format_support = [''jpg'', ''jpeg''], spectral_range = (8, 14),
         thermal_sensitivity = 5 / 100, description = description_M30T\<rparr>),
      (''H20T'', \<lparr>name = name_H20T, temperature_range = (- 20, 550), resolution = (640, 512),
         pixel_size = 12, format_support = [''jpg'', ''jpeg''], spectral_range = (8, 14),
         thermal_sensitivity = 5 / 100, description = description_H20T\<rparr>),
      (''H30T'', \<lparr>name = name_H30T, temperature_range = (- 20, 1600), resolution = (640, 512),
         pixel_size = 12, format_support = [''jpg'', ''jpeg''], spectral_range = (8, 14),
         thermal_sensitivity = 5 / 100, description = description_H30T\<rparr>),
      (''M2EA'', \<lparr>name = name_M2EA, temperature_range = (- 10, 400), resolution = (640, 512),
         pixel_size = 17, format_support = [''jpg'', ''jpeg''], spectral_range = (8, 14),
         thermal_sensitivity = 1 / 10, description = description_M2EA\<rparr>)]"

text \<open>
  \<open>Config.get_model_config\<close>: uppercases the id, raises \<open>ValueError\<close> when the result is
  not a key of the table, and returns the entry otherwise.
\<close>

definition get_model_config :: "string \<Rightarrow> exn + drone_model" where
  "get_model_config model =
     (let model = upper model in
      case map_of DRONE_MODELS model of
        None \<Rightarrow> Inl ValueError
      | Some cfg \<Rightarrow> Inr cfg)"

definition get_supported_models :: "string list" where
  "get_supported_models = map fst DRONE_MODELS"

text \<open>
  \<open>Config.validate_temperature_range\<close>: the comparison \<open>temp_min <= temperature <= temp_max\<close>
  on the value of a finite float.
\<close>

definition validate_temperature_range :: "real \<Rightarrow> string \<Rightarrow> exn + bool" where
  "validate_temperature_range temperature model =
     (case get_model_config model of
        Inl e \<Rightarrow> Inl e
      | Inr config \<Rightarrow>
          (let (temp_min, temp_max) = temperature_range config
           in Inr (of_int temp_min \<le> temperature \<and> temperature \<le> of_int temp_max)))"

section \<open>numpy: float32 values, arrays and the cast to int16\<close>

text \<open>
  A \<open>numpy.float32\<close> is IEEE-754 binary32. \<open>Finite m e\<close> is the number \<open>m * 2 ^ e\<close>; a value
  of the format has \<open>\<bar>m\<bar> < 2 ^ 24\<close> and \<open>- 149 \<le> e \<le> 104\<close>. The sign of a zero is not kept:
  no operation modelled here tells \<open>- 0.0\<close> from \<open>0.0\<close>.
\<close>

datatype f32 = Finite int int | PInf | NInf | NaN

fun valid_f32 :: "f32 \<Rightarrow> bool" where
  "valid_f32 (Finite m e) = (\<bar>m\<bar> < 2 ^ 24 \<and> - 149 \<le> e \<and> e \<le> 104)"
| "valid_f32 _ = True"

fun is_finite :: "f32 \<Rightarrow> bool" where
  "is_finite (Finite m e) = True"
| "is_finite _ = False"

definition scale2 :: "int \<Rightarrow> int \<Rightarrow> real" where
  "scale2 m e = (if 0 \<le> e then of_int m * 2 ^ nat e else of_int m / 2 ^ nat (- e))"

fun f32_val :: "f32 \<Rightarrow> real" where
  "f32_val (Finite m e) = scale2 m e"
| "f32_val _ = 0"

text \<open>
  Rounding to nearest, ties to even: \<open>rne m k\<close> is the integer nearest to \<open>m / 2 ^ k\<close>.
  \<open>f32_round M E\<close> rounds the exact number \<open>M * 2 ^ E\<close> into the format: it drops the
  bits beyond 24 (and those below the least subnormal exponent), and overflows to an
  infinity when the rounded magnitude reaches \<open>2 ^ 128\<close>.
\<close>

definition rne :: "int \<Rightarrow> nat \<Rightarrow> int" where
  "rne m k =
     (let q = m div 2 ^ k; r = m mod 2 ^ k
      in if 2 ^ k < 2 * r \<or> (2 * r = 2 ^ k \<and> odd q) then q + 1 else q)"

definition f32_round :: "int \<Rightarrow> int \<Rightarrow> f32" where
  "f32_round M E =
     (let k = max (max (bitlen \<bar>M\<bar> - 24) (- 149 - E)) 0;
          m' = rne M (nat k);
          e' = E + k
      in if 128 < bitlen \<bar>m'\<bar> + e' then (if 0 < M then PInf else NInf)
         else if \<bar>m'\<bar> = 2 ^ 24 then Finite (m' div 2) (e' + 1)
         else if 104 < e' then Finite (m' * 2 ^ nat (e' - 104)) 104
         else Finite m' e')"

definition f32_of_int :: "int \<Rightarrow> f32" where
  "f32_of_int n = f32_round n 0"

fun f32_mul :: "f32 \<Rightarrow> f32 \<Rightarrow> f32" where
  "f32_mul (Finite m1 e1) (Finite m2 e2) = f32_round (m1 * m2) (e1 + e2)"
| "f32_mul NaN y = NaN"
| "f32_mul x NaN = NaN"
| "f32_mul (Finite m e) PInf = (if m = 0 then NaN else if 0 < m then PInf else NInf)"
| "f32_mul (Finite m e) NInf = (if m = 0 then NaN else if 0 < m then NInf else PInf)"
| "f32_mul PInf (Finite m e) = (if m = 0 then NaN else if 0 < m then PInf else NInf)"
| "f32_mul NInf (Finite m e) = (if m = 0 then NaN else if 0 < m then NInf else PInf)"
| "f32_mul PInf PInf = PInf"
| "f32_mul PInf NInf = NInf"
| "f32_mul NInf PInf = NInf"
| "f32_mul NInf NInf = PInf"

text \<open>
  \<open>ndarray.astype(np.int16)\<close> on a float: the C conversion, which drops the fraction
  (truncation towards zero). It is defined when the truncated value is an \<open>int16\<close>; for
  any other input (a larger magnitude, an infinity, a NaN) the result depends on the
  platform and is the parameter \<open>oor\<close>. No input makes the cast raise.
\<close>

definition trunc_zero :: "int \<Rightarrow> int \<Rightarrow> int" where
  "trunc_zero m e =
     (if 0 \<le> e then m * 2 ^ nat e
      else if 0 \<le> m then m div 2 ^ nat (- e)
      else - ((- m) div 2 ^ nat (- e)))"

definition astype_int16 :: "(f32 \<Rightarrow> 16 word) \<Rightarrow> f32 \<Rightarrow> 16 word" where
  "astype_int16 oor x =
     (case x of
        Finite m e \<Rightarrow>
          (let z = trunc_zero m e
           in if - 32768 \<le> z \<and> z \<le> 32767 then word_of_int z else oor x)
      | _ \<Rightarrow> oor x)"

text \<open>A two-dimensional \<open>ndarray\<close>: its shape \<open>(height, width)\<close> and its rows.\<close>

record 'a ndarray =
  shape :: "nat \<times> nat"
  rows :: "'a list list"

definition map_ndarray :: "('a \<Rightarrow> 'b) \<Rightarrow> 'a ndarray \<Rightarrow> 'b ndarray" where
  "map_ndarray f a = \<lparr>shape = shape a, rows = map (map f) (rows a)\<rparr>"

section \<open>dji\_thermal\_converter.py: data\<close>

text \<open>The metadata dict built by \<open>extract_temperature_data\<close>, key by key.\<close>

record metadata =
  original_file :: string
  conversion_time :: string
  file_size :: nat
  data_type :: string
  sdk_version :: string
  temperature_unit :: string
  detected_resolution :: string
  detected_width :: int
  detected_height :: int
  device_model :: string
  data_shape :: "(nat \<times> nat) option"
  is_real_data :: bool
  warning :: "string option"

text \<open>
  What a run leaves on disk: the TIFF files it wrote, by path. A file holds the raster
  (the 16-bit samples, read as signed by \<open>sint\<close>), the compression asked for and the four
  tags. \<open>Partial\<close> is what an interrupted write may leave behind.
\<close>

record tiff_file =
  raster :: "16 word ndarray"
  compression_of :: string
  tag_270_ImageDescription :: string
  tag_305_Software :: string
  tag_306_DateTime :: string
  tag_269_DocumentName :: string

datatype stored = Tiff tiff_file | Partial

type_synonym disk = "path \<rightharpoonup> stored"

datatype save_outcome = Saved | SaveRaised bool

text \<open>
  The environment: the operating system, the interpreter and the libraries (os, ctypes,
  PIL, json, datetime, the C cast) answer through these functions. \<open>None\<close> or \<open>False\<close>
  stands for a raised exception. \<open>Image_save p c\<close> is the outcome of PIL's TIFF writer for
  path \<open>p\<close> and compression name \<open>c\<close>: \<open>Saved\<close>, or \<open>SaveRaised partial\<close> with \<open>partial\<close>
  telling whether a truncated file stays at \<open>p\<close>. The answers are fixed for the length of
  a run; what the run itself writes is the \<open>disk\<close>. Logging has no effect that is modelled.
\<close>

record world =
  ctypes_importable :: bool
  sys_platform_win32 :: bool
  os_getcwd :: path
  os_path_exists :: "path \<Rightarrow> bool"
  cdll_LoadLibrary :: "path \<Rightarrow> nat option"
  os_path_join :: "path \<Rightarrow> path \<Rightarrow> path"
  os_path_dirname :: "path \<Rightarrow> path"
  os_path_basename :: "path \<Rightarrow> path"
  os_path_splitext :: "path \<Rightarrow> path \<times> string"
  os_path_relpath :: "path \<Rightarrow> path \<Rightarrow> path option"
  os_path_getsize :: "path \<Rightarrow> nat option"
  os_makedirs :: "path \<Rightarrow> bool"
  os_walk :: "path \<Rightarrow> (path \<times> string list \<times> string list) list option"
  open_read :: "path \<Rightarrow> 8 word list option"
  Image_open_size :: "path \<Rightarrow> (int \<times> int) option"
  Image_fromarray :: "16 word ndarray \<Rightarrow> bool"
  Image_save :: "path \<Rightarrow> string \<Rightarrow> save_outcome"
  json_dumps :: "metadata \<Rightarrow> string option"
  now_isoformat :: string
  now_strftime :: string
  cast_oor :: "f32 \<Rightarrow> 16 word"

section \<open>dji\_thermal\_converter.py: the raster encoder\<close>

text \<open>
  \<open>DJIThermalConverter.save_temperature_tiff\<close>. \<open>scaled_int16\<close> is one element of
  \<open>(temperature_data * 10).astype(np.int16)\<close> for the float32 array the pipeline passes:
  numpy takes the Python integer 10 as a float32, multiplies in float32, then casts. The body of the \<open>try\<close> block follows statement by statement: the output directory
  is made when the path has one; the array is scaled; the image is built; the tags are
  prepared; the file is written. Nothing compares a scaled value with the int16 range.
\<close>

definition scaled_int16 :: "world \<Rightarrow> f32 \<Rightarrow> 16 word" where
  "scaled_int16 w t = astype_int16 (cast_oor w) (f32_mul t (f32_of_int 10))"

definition save_temperature_tiff_try ::
  "world \<Rightarrow> disk \<Rightarrow> f32 ndarray \<Rightarrow> metadata \<Rightarrow> path \<Rightarrow> string \<Rightarrow> (exn + unit) \<times> disk" where
  "save_temperature_tiff_try w d temperature_data md output_path compression =
     (let output_dir = os_path_dirname w output_path in
      if output_dir \<noteq> [] \<and> \<not> os_makedirs w output_dir then (Inl OSError, d)
      else
        let temp_scaled = map_ndarray (scaled_int16 w) temperature_data
        in if \<not> Image_fromarray w temp_scaled then (Inl ValueError, d)
           else
             case json_dumps w md of
               None \<Rightarrow> (Inl TypeError, d)
             | Some image_description \<Rightarrow>
                 (case Image_save w output_path compression of
                    SaveRaised partial \<Rightarrow>
                      (Inl OSError, if partial then d(output_path \<mapsto> Partial) else d)
                  | Saved \<Rightarrow>
                      (Inr (),
                       d(output_path \<mapsto> Tiff
                          \<lparr>raster = temp_scaled,
                           compression_of = compression,
                           tag_270_ImageDescription = image_description,
                           tag_305_Software = ''DJI Thermal Converter with SDK v1.0'',
                           tag_306_DateTime = now_strftime w,
                           tag_269_DocumentName = ''DJI R-JPEG Temperature Data''\<rparr>))))"

text \<open>
  The whole method: \<open>except Exception\<close> turns every exception of the body into the
  result \<open>False\<close>. The result type still has room for an exception, so that its absence is
  a theorem and not a typing convention.
\<close>

definition save_temperature_tiff ::
  "world \<Rightarrow> disk \<Rightarrow> f32 ndarray \<Rightarrow> metadata \<Rightarrow> path \<Rightarrow> string \<Rightarrow> (exn + bool) \<times> disk" where
  "save_temperature_tiff w d temperature_data md output_path compression =
     (case save_temperature_tiff_try w d temperature_data md output_path compression of
        (Inr u, d') \<Rightarrow> (Inr True, d')
      | (Inl e, d') \<Rightarrow> (Inr False, d'))"


section \<open>dji\_thermal\_converter.py: the converter object\<close>

record device_config =
  dc_name :: string
  dc_temperature_range :: "int \<times> int"
  dc_resolution :: "int \<times> int"
  dc_description :: string

record converter =
  sdk_path :: "string option"
  sdk_handle :: "nat option"
  is_initialized :: bool
  device_configs :: "(string \<times> device_config) list"
  default_model :: string

text \<open>
  \<open>_find_sdk_library\<close>: the candidate paths in order, the user's path first when it is
  given and not empty; the first one that exists.
\<close>

definition find_sdk_library :: "world \<Rightarrow> string option \<Rightarrow> path option" where
  "find_sdk_library w sdkp =
     (let cwd = os_getcwd w;
          possible_paths =
            (if sys_platform_win32 w then
               [os_path_join w cwd ''libdirp.dll'',
                os_path_join w (os_path_join w cwd ''dji_thermal_sdk'') ''libdirp.dll'',
                os_path_join w (os_path_join w (os_path_join w (os_path_join w (os_path_join w
                  (os_path_join w cwd ''sdk'') ''tsdk-core'') ''lib'') ''windows'')
                  ''release_x64'') ''libdirp.dll'',
                ''libdirp.dll'']
             else
               [os_path_join w cwd ''libdirp.so'',
                os_path_join w (os_path_join w cwd ''dji_thermal_sdk'') ''libdirp.so'',
                os_path_join w (os_path_join w (os_path_join w (os_path_join w (os_path_join w
                  (os_path_join w cwd ''sdk'') ''tsdk-core'') ''lib'') ''linux'')
                  ''release_x64'') ''libdirp.so'',
                ''/usr/local/lib/'' @ ''libdirp.so'']);
          possible_paths =
            (case sdkp of
               Some p \<Rightarrow> if p \<noteq> [] then p # possible_paths else possible_paths
             | None \<Rightarrow> possible_paths)
      in find (os_path_exists w) possible_paths)"

text \<open>\<open>_init_sdk\<close>: the pair \<open>(sdk_handle, is_initialized)\<close> it leaves in the object.\<close>

definition init_sdk :: "world \<Rightarrow> string option \<Rightarrow> nat option \<times> bool" where
  "init_sdk w sdkp =
     (if \<not> ctypes_importable w then (None, False)
      else
        case find_sdk_library w sdkp of
          None \<Rightarrow> (None, False)
        | Some sdk_lib_path \<Rightarrow>
            (case cdll_LoadLibrary w sdk_lib_path of
               None \<Rightarrow> (None, False)
             | Some h \<Rightarrow> (Some h, True)))"

text \<open>\<open>__init__\<close>: the table of devices, the default model, then the SDK.\<close>

definition DJIThermalConverter :: "world \<Rightarrow> string option \<Rightarrow> converter" where
  "DJIThermalConverter w sdkp =
     (let (h, ini) = init_sdk w sdkp in
      \<lparr>sdk_path = sdkp,
       sdk_handle = h,
       is_initialized = ini,
       device_configs =
         [(''M30T'', \<lparr>dc_name = name_M30T, dc_temperature_range = (- 20, 400),
             dc_resolution = (1280, 1024), dc_description = description_M30T\<rparr>),
          (''H20T'', \<lparr>dc_name = name_H20T, dc_temperature_range = (- 20, 550),
             dc_resolution = (640, 512), dc_description = description_H20T\<rparr>),
          (''H30T'', \<lparr>dc_name = name_H30T, dc_temperature_range = (- 20, 1600),
             dc_resolution = (640, 512), dc_description = description_H30T\<rparr>),
          (''M2EA'', \<lparr>dc_name = name_M2EA, dc_temperature_range = (- 10, 400),
             dc_resolution = (640, 512), dc_description = description_M2EA\<rparr>)],
       default_model = ''M30T''\<rparr>)"

text \<open>
  \<open>self.device_configs[self.default_model]['resolution']\<close>: a missing key raises
  \<open>KeyError\<close>.
\<close>

definition default_resolution :: "converter \<Rightarrow> exn + int \<times> int" where
  "default_resolution self =
     (case map_of (device_configs self) (default_model self) of
        None \<Rightarrow> Inl KeyError
      | Some cfg \<Rightarrow> Inr (dc_resolution cfg))"

section \<open>dji\_thermal\_converter.py: resolution detection\<close>

text \<open>
  \<open>_detect_image_resolution\<close>: the size PIL reads from the container; when opening it
  raises, the handler returns the default model's resolution.
\<close>

definition detect_image_resolution :: "converter \<Rightarrow> world \<Rightarrow> path \<Rightarrow> exn + int \<times> int" where
  "detect_image_resolution self w image_path =
     (case Image_open_size w image_path of
        Some (width, height) \<Rightarrow> Inr (width, height)
      | None \<Rightarrow> default_resolution self)"

section \<open>dji\_thermal\_converter.py: the temperature grid\<close>

text \<open>
  The float arithmetic of Python and numpy is a parameter: \<open>'d\<close> is float64, \<open>'s\<close> is
  float32, and the record holds the operations the generator calls (the conversion from
  an integer, the four operations it uses, \<open>np.sqrt\<close>, \<open>np.exp\<close>, and the two conversions
  between the formats). \<open>real_ops\<close> reads every operation as the exact one on real
  numbers.
\<close>

record ('d, 's) fp_ops =
  fp_of_int :: "int \<Rightarrow> 'd"
  fp_add :: "'d \<Rightarrow> 'd \<Rightarrow> 'd"
  fp_mul :: "'d \<Rightarrow> 'd \<Rightarrow> 'd"
  fp_div :: "'d \<Rightarrow> 'd \<Rightarrow> 'd"
  fp_neg :: "'d \<Rightarrow> 'd"
  fp_sqrt :: "'d \<Rightarrow> 'd"
  fp_exp :: "'d \<Rightarrow> 'd"
  fp_narrow :: "'d \<Rightarrow> 's"
  fp_widen :: "'s \<Rightarrow> 'd"

definition real_ops :: "(real, real) fp_ops" where
  "real_ops =
     \<lparr>fp_of_int = of_int, fp_add = (+), fp_mul = (*), fp_div = (/), fp_neg = uminus,
      fp_sqrt = sqrt, fp_exp = exp, fp_narrow = (\<lambda>x. x), fp_widen = (\<lambda>x. x)\<rparr>"

text \<open>
  \<open>_create_mock_temperature_data\<close>, one pixel \<open>(i, j)\<close> at a time. \<open>gradient\<close> is what the
  double loop stores into the float32 array; \<open>hot_spot1\<close> and \<open>hot_spot2\<close> are the float64
  arrays built from \<open>np.ogrid\<close>; \<open>mock_pixel\<close> is the element after the in-place addition
  \<open>temperature_data += hot_spot1 + hot_spot2\<close>, which adds in float64 and stores in float32.
\<close>

definition gradient :: "('d, 's) fp_ops \<Rightarrow> int \<Rightarrow> int \<Rightarrow> int \<Rightarrow> int \<Rightarrow> 's" where
  "gradient ops width height i j =
     fp_narrow ops
       (fp_add ops (fp_of_int ops 20)
          (fp_mul ops
             (fp_mul ops (fp_of_int ops 20) (fp_div ops (fp_of_int ops i) (fp_of_int ops height)))
             (fp_div ops (fp_of_int ops j) (fp_of_int ops width))))"

definition hot_spot1 :: "('d, 's) fp_ops \<Rightarrow> int \<Rightarrow> int \<Rightarrow> int \<Rightarrow> int \<Rightarrow> 'd" where
  "hot_spot1 ops width height i j =
     (let center_x = width div 2; center_y = height div 2;
          distance1 = fp_sqrt ops (fp_of_int ops ((j - center_x)\<^sup>2 + (i - center_y)\<^sup>2))
      in fp_mul ops (fp_of_int ops 60)
           (fp_exp ops (fp_div ops (fp_neg ops distance1) (fp_of_int ops 50))))"

definition hot_spot2 :: "('d, 's) fp_ops \<Rightarrow> int \<Rightarrow> int \<Rightarrow> int \<Rightarrow> int \<Rightarrow> 'd" where
  "hot_spot2 ops width height i j =
     (let center_x = width div 2; center_y = height div 2;
          distance2 =
            fp_sqrt ops (fp_of_int ops ((j - center_x + 100)\<^sup>2 + (i - center_y + 100)\<^sup>2))
      in fp_mul ops (fp_of_int ops 45)
           (fp_exp ops (fp_div ops (fp_neg ops distance2) (fp_of_int ops 30))))"

definition mock_pixel :: "('d, 's) fp_ops \<Rightarrow> int \<Rightarrow> int \<Rightarrow> int \<Rightarrow> int \<Rightarrow> 's" where
  "mock_pixel ops width height i j =
     fp_narrow ops
       (fp_add ops (fp_widen ops (gradient ops width height i j))
          (fp_add ops (hot_spot1 ops width height i j) (hot_spot2 ops width height i j)))"

text \<open>
  The whole function. Without a resolution it takes the default model's. \<open>np.zeros\<close>
  raises \<open>ValueError\<close> on a negative dimension and on nothing else; a dimension of 0 gives
  an array with no element.
\<close>

definition create_mock_temperature_data ::
  "('d, 's) fp_ops \<Rightarrow> converter \<Rightarrow> (int \<times> int) option \<Rightarrow> exn + 's ndarray" where
  "create_mock_temperature_data ops self res =
     (case (case res of Some r \<Rightarrow> Inr r | None \<Rightarrow> default_resolution self) of
        Inl e \<Rightarrow> Inl e
      | Inr (width, height) \<Rightarrow>
          if height < 0 \<or> width < 0 then Inl ValueError
          else
            Inr \<lparr>shape = (nat height, nat width),
                 rows =
                   map (\<lambda>i. map (\<lambda>j. mock_pixel ops width height (int i) (int j))
                               [0..<nat width])
                     [0..<nat height]\<rparr>)"

text \<open>
  \<open>_parse_rjpeg_with_sdk\<close>: with or without a loaded SDK it returns the generated grid;
  the bytes are not read.
\<close>

definition parse_rjpeg_with_sdk ::
  "('d, 's) fp_ops \<Rightarrow> converter \<Rightarrow> 8 word list \<Rightarrow> (int \<times> int) option \<Rightarrow> exn + 's ndarray" where
  "parse_rjpeg_with_sdk ops self rjpeg_data res =
     (if sdk_handle self = None then create_mock_temperature_data ops self res
      else create_mock_temperature_data ops self res)"

section \<open>dji\_thermal\_converter.py: one file\<close>

text \<open>\<open>str\<close> of an integer, for the f-string of the detected resolution.\<close>

fun str_nat :: "nat \<Rightarrow> string" where
  "str_nat n =
     (if n < 10 then [char_of (48 + n)] else str_nat (n div 10) @ [char_of (48 + n mod 10)])"

definition str_int :: "int \<Rightarrow> string" where
  "str_int i = (if i < 0 then CHR ''-'' # str_nat (nat (- i)) else str_nat (nat i))"

text \<open>
  \<open>extract_temperature_data\<close>: the resolution, the bytes of the file, the grid, the
  metadata. The handler logs and raises the exception again, so the first failing step
  is the result.
\<close>

definition extract_temperature_data ::
  "('d, 's) fp_ops \<Rightarrow> converter \<Rightarrow> world \<Rightarrow> path \<Rightarrow> exn + 's ndarray \<times> metadata" where
  "extract_temperature_data ops self w rjpeg_path =
     (case detect_image_resolution self w rjpeg_path of
        Inl e \<Rightarrow> Inl e
      | Inr (detected_w, detected_h) \<Rightarrow>
          (case open_read w rjpeg_path of
             None \<Rightarrow> Inl OSError
           | Some rjpeg_data \<Rightarrow>
               (case parse_rjpeg_with_sdk ops self rjpeg_data
                       (Some (detected_w, detected_h)) of
                  Inl e \<Rightarrow> Inl e
                | Inr temperature_data \<Rightarrow>
                    Inr (temperature_data,
                      \<lparr>original_file = os_path_basename w rjpeg_path,
                       conversion_time = now_isoformat w,
                       file_size = length rjpeg_data,
                       data_type = ''R-JPEG'',
                       sdk_version =
                         (if is_initialized self then ''DJI Thermal SDK v1.4''
                          else ''Mock Data (SDK Not Installed)''),
                       temperature_unit = celsius_unit,
                       detected_resolution =
                         str_int detected_w @ times_sign @ str_int detected_h,
                       detected_width = detected_w,
                       detected_height = detected_h,
                       device_model = default_model self,
                       data_shape = Some (shape temperature_data),
                       is_real_data = is_initialized self,
                       warning =
                         (if \<not> is_initialized self then Some mock_warning else None)\<rparr>))))"

text \<open>
  \<open>convert_rjpeg_to_tiff\<close>. The body of the \<open>try\<close> block: extract, save with the default
  compression \<open>'lzw'\<close>, and after a successful save log the minimum and the maximum of the
  grid; \<open>ndarray.min()\<close> raises \<open>ValueError\<close> on an array with no element. Then the method,
  whose handler returns \<open>False\<close> for every exception of the body.
\<close>

definition convert_rjpeg_to_tiff_try ::
  "('d, f32) fp_ops \<Rightarrow> converter \<Rightarrow> world \<Rightarrow> disk \<Rightarrow> path \<Rightarrow> path \<Rightarrow> (exn + bool) \<times> disk" where
  "convert_rjpeg_to_tiff_try ops self w d input_path output_path =
     (case extract_temperature_data ops self w input_path of
        Inl e \<Rightarrow> (Inl e, d)
      | Inr (temperature_data, md) \<Rightarrow>
          (case save_temperature_tiff w d temperature_data md output_path ''lzw'' of
             (Inl e, d') \<Rightarrow> (Inl e, d')
           | (Inr ok, d') \<Rightarrow>
               if ok \<and> fst (shape temperature_data) * snd (shape temperature_data) = 0
               then (Inl ValueError, d')
               else (Inr ok, d')))"

definition convert_rjpeg_to_tiff ::
  "('d, f32) fp_ops \<Rightarrow> converter \<Rightarrow> world \<Rightarrow> disk \<Rightarrow> path \<Rightarrow> path \<Rightarrow> (exn + bool) \<times> disk" where
  "convert_rjpeg_to_tiff ops self w d input_path output_path =
     (case convert_rjpeg_to_tiff_try ops self w d input_path output_path of
        (Inr ok, d') \<Rightarrow> (Inr ok, d')
      | (Inl e, d') \<Rightarrow> (Inr False, d'))"

section \<open>dji\_thermal\_converter.py: a directory\<close>

text \<open>
  \<open>_is_likely_rjpeg\<close>: a file under 100000 bytes is refused; a file whose uppercased name
  has one of the three markers is accepted; otherwise the first 1000 bytes are read and
  the file is accepted whatever they hold. Every exception gives \<open>False\<close>.
\<close>

definition is_likely_rjpeg :: "world \<Rightarrow> path \<Rightarrow> bool" where
  "is_likely_rjpeg w file_path =
     (case os_path_getsize w file_path of
        None \<Rightarrow> False
      | Some size_in_bytes \<Rightarrow>
          if size_in_bytes < 100000 then False
          else
            let filename = upper (os_path_basename w file_path) in
            if sublist ''DJI'' filename \<or> sublist ''_T'' filename \<or> sublist ''_R'' filename
            then True
            else
              (case open_read w file_path of
                 None \<Rightarrow> False
               | Some content \<Rightarrow>
                   (let header = take 1000 content in
                    if sublist [68, 74, 73] header \<or> sublist [70, 76, 73, 82] header then True
                    else True)))"

record results =
  success :: nat
  failed :: nat
  total :: nat

text \<open>
  The first loop of \<open>batch_convert\<close>: the candidates of one directory of the walk, and of
  the whole walk (only its first directory when \<open>recursive\<close> is false).
\<close>

definition candidates_in :: "world \<Rightarrow> path \<times> string list \<times> string list \<Rightarrow> path list" where
  "candidates_in w entry =
     (case entry of (root_dir, dirs, files) \<Rightarrow>
        concat (map (\<lambda>file.
          if suffix ''.jpg'' (lower file) \<or> suffix ''.jpeg'' (lower file) then
            (let file_path = os_path_join w root_dir file
             in if is_likely_rjpeg w file_path then [file_path] else [])
          else []) files))"

definition find_rjpeg_files ::
  "world \<Rightarrow> (path \<times> string list \<times> string list) list \<Rightarrow> bool \<Rightarrow> path list" where
  "find_rjpeg_files w walk recursive =
     concat (map (candidates_in w) (if recursive then walk else take 1 walk))"

text \<open>
  One turn of the second loop: the output path, the conversion, and one of the two
  counters. An exception inside the turn is caught by the inner handler, which counts
  the file as failed.
\<close>

definition convert_one ::
  "('d, f32) fp_ops \<Rightarrow> converter \<Rightarrow> world \<Rightarrow> path \<Rightarrow> path \<Rightarrow> path \<Rightarrow> results \<times> disk
     \<Rightarrow> results \<times> disk" where
  "convert_one ops self w input_dir output_dir rjpeg_file rd =
     (case rd of (r, d) \<Rightarrow>
        (case os_path_relpath w rjpeg_file input_dir of
           None \<Rightarrow> (r\<lparr>failed := failed r + 1\<rparr>, d)
         | Some relative_path \<Rightarrow>
             (let output_file =
                    os_path_join w output_dir (fst (os_path_splitext w relative_path) @ ''.tiff'')
              in case convert_rjpeg_to_tiff ops self w d rjpeg_file output_file of
                   (Inr True, d') \<Rightarrow> (r\<lparr>success := success r + 1\<rparr>, d')
                 | (Inr False, d') \<Rightarrow> (r\<lparr>failed := failed r + 1\<rparr>, d')
                 | (Inl e, d') \<Rightarrow> (r\<lparr>failed := failed r + 1\<rparr>, d'))))"

fun convert_all ::
  "('d, f32) fp_ops \<Rightarrow> converter \<Rightarrow> world \<Rightarrow> path \<Rightarrow> path \<Rightarrow> path list \<Rightarrow> results \<times> disk
     \<Rightarrow> results \<times> disk" where
  "convert_all ops self w input_dir output_dir [] rd = rd"
| "convert_all ops self w input_dir output_dir (rjpeg_file # rest) rd =
     convert_all ops self w input_dir output_dir rest
       (convert_one ops self w input_dir output_dir rjpeg_file rd)"

text \<open>
  \<open>batch_convert\<close>. When the walk raises, the outer handler leaves the three counters
  at 0. Otherwise \<open>total\<close> is set once, to the number of candidates, before the first
  conversion.
\<close>

definition batch_convert ::
  "('d, f32) fp_ops \<Rightarrow> converter \<Rightarrow> world \<Rightarrow> disk \<Rightarrow> path \<Rightarrow> path \<Rightarrow> bool \<Rightarrow> results \<times> disk" where
  "batch_convert ops self w d input_dir output_dir recursive =
     (let r = \<lparr>success = 0, failed = 0, total = 0\<rparr> in
      case os_walk w input_dir of
        None \<Rightarrow> (r, d)
      | Some walk \<Rightarrow>
          (let rjpeg_files = find_rjpeg_files w walk recursive
           in convert_all ops self w input_dir output_dir rjpeg_files
                (r\<lparr>total := length rjpeg_files\<rparr>, d)))"

section \<open>A concrete environment\<close>

text \<open>
  One environment in which every call succeeds, for concrete runs: POSIX-like paths, a
  512-row, 640-column image behind every path, and for a float outside the int16 range the
  cast of x86-64 (the low 16 bits of the 32-bit conversion, 0 when that overflows too).
\<close>

definition demo_cast_oor :: "f32 \<Rightarrow> 16 word" where
  "demo_cast_oor x =
     (case x of
        Finite m e \<Rightarrow>
          (let z = trunc_zero m e
           in if - 2147483648 \<le> z \<and> z \<le> 2147483647 then word_of_int z else 0)
      | _ \<Rightarrow> 0)"

definition demo_world :: world where
  "demo_world =
     \<lparr>ctypes_importable = True,
      sys_platform_win32 = False,
      os_getcwd = ''/work'',
      os_path_exists = (\<lambda>p. False),
      cdll_LoadLibrary = (\<lambda>p. None),
      os_path_join = (\<lambda>a b. a @ ''/'' @ b),
      os_path_dirname = (\<lambda>p. rev (drop 1 (dropWhile (\<lambda>c. c \<noteq> CHR ''/'') (rev p)))),
      os_path_basename = (\<lambda>p. rev (takeWhile (\<lambda>c. c \<noteq> CHR ''/'') (rev p))),
      os_path_splitext = (\<lambda>p. (p, [])),
      os_path_relpath = (\<lambda>p start. Some p),
      os_path_getsize = (\<lambda>p. Some 200000),
      os_makedirs = (\<lambda>p. True),
      os_walk = (\<lambda>p. Some []),
      open_read = (\<lambda>p. Some []),
      Image_open_size = (\<lambda>p. Some (640, 512)),
      Image_fromarray = (\<lambda>a. True),
      Image_save = (\<lambda>p c. Saved),
      json_dumps =
        (\<lambda>m. Some (''{'' @ [CHR 0x22] @ ''original_file'' @ [CHR 0x22] @ '': '' @ [CHR 0x22]
                    @ original_file m @ [CHR 0x22] @ ''}'')),
      now_isoformat = ''2024-01-01T00:00:00'',
      now_strftime = ''2024:01:01 00:00:00'',
      cast_oor = demo_cast_oor\<rparr>"

definition demo_metadata :: metadata where
  "demo_metadata =
     \<lparr>original_file = ''DJI_0001_T.JPG'',
      conversion_time = ''2024-01-01T00:00:00'',
      file_size = 0,
      data_type = ''R-JPEG'',
      sdk_version = ''Mock Data (SDK Not Installed)'',
      temperature_unit = celsius_unit,
      detected_resolution = ''1'' @ times_sign @ ''1'',
      detected_width = 1,
      detected_height = 1,
      device_model = ''M30T'',
      data_shape = Some (1, 1),
      is_real_data = False,
      warning = Some mock_warning\<rparr>"

text \<open>
  What a reader finds at a path: the samples of the TIFF there as signed integers, row by
  row. \<open>demo_run t\<close> encodes the one-pixel grid holding \<open>t\<close> in the concrete environment.
\<close>

definition persisted_values :: "disk \<Rightarrow> path \<Rightarrow> int list list option" where
  "persisted_values d p =
     (case d p of
        Some (Tiff f) \<Rightarrow> Some (map (map sint) (rows (raster f)))
      | Some Partial \<Rightarrow> None
      | None \<Rightarrow> None)"

definition demo_grid :: "f32 \<Rightarrow> f32 ndarray" where
  "demo_grid t = \<lparr>shape = (1, 1), rows = [[t]]\<rparr>"

definition demo_run :: "f32 \<Rightarrow> (exn + bool) \<times> disk" where
  "demo_run t =
     save_temperature_tiff demo_world Map.empty (demo_grid t) demo_metadata ''out.tiff'' ''lzw''"

text \<open>Whether the cast of a float to int16 is defined: the float is finite and its integer
  part is an int16.\<close>

definition fits_int16 :: "f32 \<Rightarrow> bool" where
  "fits_int16 y =
     (case y of
        Finite a b \<Rightarrow> - 32768 \<le> trunc_zero a b \<and> trunc_zero a b \<le> 32767
      | PInf \<Rightarrow> False
      | NInf \<Rightarrow> False
      | NaN \<Rightarrow> False)"

section \<open>Lemmas on rounding and truncation\<close>

lemma scale2_powi: "scale2 m e = of_int m * 2 powi e"
proof (cases "0 \<le> e")
  case True
  then show ?thesis by (simp add: scale2_def power_int_def)
next
  case False
  then show ?thesis by (simp add: scale2_def power_int_def field_simps)
qed

lemma rne_split:
  obtains q r where "m = q * 2 ^ k + r" "0 \<le> r" "r < 2 ^ k"
    "rne m k = (if 2 ^ k < 2 * r \<or> (2 * r = 2 ^ k \<and> odd q) then q + 1 else q)"
proof
  show "m = (m div 2 ^ k) * 2 ^ k + m mod 2 ^ k" by (rule div_mult_mod_eq[symmetric])
  show "0 \<le> m mod 2 ^ k" by simp
  show "m mod 2 ^ k < 2 ^ k" by simp
  show "rne m k = (if 2 ^ k < 2 * (m mod 2 ^ k) \<or> (2 * (m mod 2 ^ k) = 2 ^ k \<and> odd (m div 2 ^ k))
     then m div 2 ^ k + 1 else m div 2 ^ k)"
    by (simp add: rne_def Let_def)
qed

lemma rne_err: "2 * \<bar>rne m k * 2 ^ k - m\<bar> \<le> 2 ^ k"
proof -
  obtain q r where m: "m = q * 2 ^ k + r" and r: "0 \<le> r" "r < 2 ^ k"
    and rn: "rne m k = (if 2 ^ k < 2 * r \<or> (2 * r = 2 ^ k \<and> odd q) then q + 1 else q)"
    by (rule rne_split)
  define p :: int where "p = 2 ^ k"
  define R where "R = rne m k"
  have rn': "R = (if p < 2 * r \<or> (2 * r = p \<and> odd q) then q + 1 else q)"
    using rn by (simp add: R_def p_def)
  have m': "m = q * p + r" using m by (simp add: p_def)
  have d: "R * p - m = (if p < 2 * r \<or> (2 * r = p \<and> odd q) then p - r else - r)"
    unfolding rn' m' by (simp add: algebra_simps)
  have "2 * \<bar>R * p - m\<bar> \<le> p"
    using r unfolding p_def[symmetric] d by (simp split: if_splits)
  then show ?thesis by (simp add: R_def p_def)
qed

lemma rne_ge: 
  assumes "N * 2 ^ k \<le> m" shows "N \<le> rne m k"
proof -
  obtain q r where m: "m = q * 2 ^ k + r" and r: "0 \<le> r" "r < 2 ^ k"
    and rn: "rne m k = (if 2 ^ k < 2 * r \<or> (2 * r = 2 ^ k \<and> odd q) then q + 1 else q)"
    by (rule rne_split)
  have "N \<le> q"
  proof (rule ccontr)
    assume "\<not> N \<le> q"
    then have "q + 1 \<le> N" by simp
    then have "(q + 1) * 2 ^ k \<le> N * (2 ^ k :: int)" by (intro mult_right_mono) simp_all
    with assms m r show False by (simp add: algebra_simps)
  qed
  then show ?thesis by (simp add: rn)
qed

lemma rne_le:
  assumes "m \<le> N * 2 ^ k" shows "rne m k \<le> N"
proof -
  obtain q r where m: "m = q * 2 ^ k + r" and r: "0 \<le> r" "r < 2 ^ k"
    and rn: "rne m k = (if 2 ^ k < 2 * r \<or> (2 * r = 2 ^ k \<and> odd q) then q + 1 else q)"
    by (rule rne_split)
  have qN: "q \<le> N"
  proof (rule ccontr)
    assume "\<not> q \<le> N"
    then have "N + 1 \<le> q" by simp
    then have "(N + 1) * 2 ^ k \<le> q * (2 ^ k :: int)" by (intro mult_right_mono) simp_all
    with assms m r show False by (simp add: algebra_simps)
  qed
  show ?thesis
  proof (cases "q = N")
    case True
    with assms m r have "r = 0" by simp
    then show ?thesis using True by (simp add: rn)
  next
    case False
    with qN have "q + 1 \<le> N" by simp
    then show ?thesis using qN by (simp add: rn)
  qed
qed

lemma rne_0: "rne m 0 = m"
  by (simp add: rne_def)

lemma trunc_zero_real:
  "trunc_zero m e = (if 0 \<le> scale2 m e then \<lfloor>scale2 m e\<rfloor> else \<lceil>scale2 m e\<rceil>)"
proof (cases "0 \<le> e")
  case True
  define X where "X = m * 2 ^ nat e"
  have s: "scale2 m e = of_int X" using True by (simp add: scale2_def X_def)
  have t: "trunc_zero m e = X" using True by (simp add: trunc_zero_def X_def)
  show ?thesis unfolding s t by simp
next
  case False
  define p :: int where "p = 2 ^ nat (- e)"
  have p: "0 < p" by (simp add: p_def)
  have s: "scale2 m e = of_int m / of_int p" using False by (simp add: scale2_def p_def)
  have t: "trunc_zero m e = (if 0 \<le> m then m div p else - ((- m) div p))"
    using False by (simp add: trunc_zero_def p_def)
  show ?thesis
  proof (cases "0 \<le> m")
    case True
    then have "0 \<le> real_of_int m / of_int p" using p by simp
    moreover have "\<lfloor>real_of_int m / of_int p\<rfloor> = m div p"
      by (rule floor_divide_of_int_eq)
    ultimately show ?thesis unfolding s t using True by simp
  next
    case neg: False
    then have n: "real_of_int m / of_int p < 0" using p by (simp add: divide_neg_pos)
    have "\<lceil>real_of_int m / of_int p\<rceil> = - \<lfloor>of_int (- m) / real_of_int p\<rfloor>"
      by (simp add: ceiling_def)
    also have "\<dots> = - ((- m) div p)" by (simp only: floor_divide_of_int_eq)
    finally show ?thesis unfolding s t using neg n by simp
  qed
qed

lemma trunc_zero_err: "\<bar>real_of_int (trunc_zero m e) - scale2 m e\<bar> < 1"
  unfolding trunc_zero_real by (simp; linarith)

lemma scale2_shift: "scale2 (m * 2 ^ n) e = scale2 m (e + int n)"
  by (simp add: scale2_powi power_int_add power_int_def[of _ "int n"])

lemma f32_round_val:
  assumes "- 149 \<le> E" and "f32_round M E = Finite a b"
  shows "scale2 a b = scale2 (rne M (nat (max (bitlen \<bar>M\<bar> - 24) 0))) (E + max (bitlen \<bar>M\<bar> - 24) 0)"
proof -
  define k where "k = max (bitlen \<bar>M\<bar> - 24) 0"
  define m' where "m' = rne M (nat k)"
  have k: "max (max (bitlen \<bar>M\<bar> - 24) (- 149 - E)) 0 = k"
    using assms(1) by (simp add: k_def)
  have r: "f32_round M E =
     (if 128 < bitlen \<bar>m'\<bar> + (E + k) then (if 0 < M then PInf else NInf)
         else if \<bar>m'\<bar> = 2 ^ 24 then Finite (m' div 2) (E + k + 1)
         else if 104 < E + k then Finite (m' * 2 ^ nat (E + k - 104)) 104
         else Finite m' (E + k))"
    unfolding f32_round_def k Let_def m'_def by simp
  consider (c1) "\<bar>m'\<bar> = 2 ^ 24" "a = m' div 2" "b = E + k + 1"
    | (c2) "104 < E + k" "a = m' * 2 ^ nat (E + k - 104)" "b = 104"
    | (c3) "a = m'" "b = E + k"
    using assms(2) unfolding r by (auto split: if_splits)
  then have "scale2 a b = scale2 m' (E + k)"
  proof cases
    case c1
    then have "m' = 16777216 \<or> m' = - 16777216" by (simp add: abs_if split: if_splits)
    then have "m' = (m' div 2) * 2 ^ 1" by auto
    then have "scale2 m' (E + k) = scale2 ((m' div 2) * 2 ^ 1) (E + k)" by simp
    also have "\<dots> = scale2 (m' div 2) (E + k + 1)" 
      using scale2_shift[of "m' div 2" 1 "E + k"] by simp
    finally show ?thesis using c1 by simp
  next
    case c2
    have "scale2 (m' * 2 ^ nat (E + k - 104)) 104 = scale2 m' (104 + int (nat (E + k - 104)))"
      by (rule scale2_shift)
    then show ?thesis using c2 by simp
  next
    case c3
    then show ?thesis by simp
  qed
  then show ?thesis by (simp add: m'_def k_def)
qed

lemma big_mantissa:
  assumes "24 < bitlen \<bar>M\<bar>"
  shows "2 ^ 23 \<le> \<bar>rne M (nat (bitlen \<bar>M\<bar> - 24))\<bar>"
    and "\<bar>rne M (nat (bitlen \<bar>M\<bar> - 24))\<bar> \<le> 2 ^ 24"
proof -
  define n where "n = nat (bitlen \<bar>M\<bar> - 24)"
  have pos: "0 < \<bar>M\<bar>" using assms bitlen_eq_zero_iff[of "\<bar>M\<bar>"] by auto
  have e1: "nat (bitlen \<bar>M\<bar> - 1) = 23 + n" and e2: "nat (bitlen \<bar>M\<bar>) = 24 + n"
    using assms by (simp_all add: n_def)
  from bitlen_bounds[OF pos] have lo: "2 ^ 23 * 2 ^ n \<le> \<bar>M\<bar>" and hi: "\<bar>M\<bar> < 2 ^ 24 * 2 ^ n"
    unfolding e1 e2 by (simp_all add: power_add)
  have "2 ^ 23 \<le> \<bar>rne M n\<bar> \<and> \<bar>rne M n\<bar> \<le> 2 ^ 24"
  proof (cases "0 < M")
    case True
    have "2 ^ 23 \<le> rne M n" using lo True by (intro rne_ge) simp
    moreover have "rne M n \<le> 2 ^ 24" using hi True by (intro rne_le) simp
    ultimately show ?thesis by simp
  next
    case False
    have "rne M n \<le> - (2 ^ 23)" using lo False by (intro rne_le) simp
    moreover have "- (2 ^ 24) \<le> rne M n" using hi False by (intro rne_ge) simp
    ultimately show ?thesis by simp
  qed
  then show "2 ^ 23 \<le> \<bar>rne M (nat (bitlen \<bar>M\<bar> - 24))\<bar>"
    and "\<bar>rne M (nat (bitlen \<bar>M\<bar> - 24))\<bar> \<le> 2 ^ 24"
    by (simp_all add: n_def)
qed

lemma abs_div_lt_1:
  fixes q t m :: real
  assumes "0 < q" and "\<bar>t * q - m\<bar> < q"
  shows "\<bar>t - m / q\<bar> < 1"
proof -
  have "t - m / q = (t * q - m) / q" using assms(1) by (simp add: field_simps)
  then have "\<bar>t - m / q\<bar> = \<bar>t * q - m\<bar> / q" using assms(1) by simp
  then show ?thesis using assms by simp
qed

lemma trunc_zero_cong: "scale2 a b = scale2 c d \<Longrightarrow> trunc_zero a b = trunc_zero c d"
  by (simp add: trunc_zero_real)

lemma cast_err:
  assumes E: "- 149 \<le> E" and r: "f32_round M E = Finite a b"
      and v: "\<bar>trunc_zero a b\<bar> \<le> 32768"
  shows "\<bar>real_of_int (trunc_zero a b) - scale2 M E\<bar> < 1"
proof -
  define k where "k = max (bitlen \<bar>M\<bar> - 24) 0"
  define m' where "m' = rne M (nat k)"
  have y: "scale2 a b = scale2 m' (E + k)"
    using f32_round_val[OF E r] by (simp add: m'_def k_def)
  define t where "t = trunc_zero a b"
  have t: "t = trunc_zero m' (E + k)" unfolding t_def by (rule trunc_zero_cong[OF y])
  have terr: "\<bar>real_of_int t - scale2 m' (E + k)\<bar> < 1" unfolding t by (rule trunc_zero_err)
  have tb: "\<bar>t\<bar> \<le> 32768" using v by (simp add: t_def)
  have "\<bar>real_of_int t - scale2 M E\<bar> < 1"
  proof (cases "k = 0")
    case True
    then have "m' = M" by (simp add: m'_def rne_0)
    with terr True show ?thesis by simp
  next
    case False
    then have kpos: "0 < k" and kk: "k = bitlen \<bar>M\<bar> - 24" and big: "24 < bitlen \<bar>M\<bar>"
      by (simp_all add: k_def max_def split: if_splits)
    have mlo: "2 ^ 23 \<le> \<bar>m'\<bar>" using big_mantissa(1)[OF big] by (simp add: m'_def kk)
    have neg: "E + k \<le> 0"
    proof (rule ccontr)
      assume "\<not> E + k \<le> 0"
      then have p: "1 \<le> nat (E + k)" and nn: "0 \<le> E + k" by simp_all
      have s: "scale2 m' (E + k) = of_int (m' * 2 ^ nat (E + k))" using nn by (simp add: scale2_def)
      have "(2::int) ^ 1 \<le> 2 ^ nat (E + k)" using p by (intro power_increasing) simp_all
      then have "2 ^ 23 * 2 \<le> \<bar>m'\<bar> * 2 ^ nat (E + k)"
        using mlo by (intro mult_mono) simp_all
      then have "2 ^ 24 \<le> \<bar>m' * 2 ^ nat (E + k)\<bar>" by (simp add: abs_mult)
      moreover have "t = m' * 2 ^ nat (E + k)" using nn by (simp add: t trunc_zero_def)
      ultimately show False using tb by simp
    qed
    define s where "s = nat (- (E + k))"
    define P :: int where "P = 2 ^ s"
    define K :: int where "K = 2 ^ nat k"
    have Ppos: "0 < P" and Kpos: "0 < K" by (simp_all add: P_def K_def)
    have Eneg: "E < 0" using neg kpos by simp
    have nE: "nat (- E) = nat k + s" using neg kpos by (simp add: s_def)
    have sm': "scale2 m' (E + k) = of_int m' / of_int P"
      using neg by (cases "E + k = 0") (simp_all add: scale2_def P_def s_def)
    have sM: "scale2 M E = of_int M / (of_int K * of_int P)"
      using Eneg by (simp add: scale2_def nE power_add K_def P_def)
    have "\<bar>real_of_int t * of_int P - of_int m'\<bar> < of_int P"
      using terr Ppos unfolding sm' by (simp add: field_simps abs_if split: if_splits)
    then have "real_of_int \<bar>t * P - m'\<bar> < real_of_int P" by simp
    then have "\<bar>t * P - m'\<bar> < P" by (simp only: of_int_less_iff)
    then have A: "\<bar>t * P - m'\<bar> \<le> P - 1" by simp
    define X where "X = \<bar>K * (t * P - m')\<bar>"
    define Y where "Y = \<bar>m' * K - M\<bar>"
    define Z where "Z = \<bar>t * K * P - M\<bar>"
    define KP where "KP = K * P"
    have B: "2 * Y \<le> K" using rne_err[of M "nat k"] by (simp add: m'_def K_def Y_def)
    have e1: "X = K * \<bar>t * P - m'\<bar>" using Kpos by (simp add: abs_mult X_def)
    have e2: "K * (P - 1) = KP - K" by (simp add: algebra_simps KP_def)
    have "K * \<bar>t * P - m'\<bar> \<le> K * (P - 1)" using A Kpos by (intro mult_left_mono) simp_all
    then have C: "X \<le> KP - K" unfolding e1 e2 .
    have eq: "t * K * P - M = K * (t * P - m') + (m' * K - M)" by (simp add: algebra_simps)
    have D: "Z \<le> X + Y"
      unfolding Z_def X_def Y_def eq by (rule abs_triangle_ineq)
    have "Z < KP" using B C D Kpos by linarith
    then have "\<bar>t * K * P - M\<bar> < K * P" by (simp add: Z_def KP_def)
    then have "real_of_int \<bar>t * K * P - M\<bar> < real_of_int (K * P)"
      by (simp only: of_int_less_iff)
    then have "\<bar>real_of_int t * (of_int K * of_int P) - of_int M\<bar> < of_int K * of_int P"
      by (simp add: mult.assoc)
    moreover have "0 < real_of_int K * real_of_int P" using Kpos Ppos by simp
    ultimately show ?thesis unfolding sM by (intro abs_div_lt_1)
  qed
  then show ?thesis by (simp add: t_def)
qed

lemma big_mantissa_lo:
  assumes "24 < bitlen \<bar>M\<bar>"
  shows "2 ^ 23 * 2 ^ nat (bitlen \<bar>M\<bar> - 24) \<le> \<bar>M\<bar>"
proof -
  have pos: "0 < \<bar>M\<bar>" using assms bitlen_eq_zero_iff[of "\<bar>M\<bar>"] by auto
  have e1: "nat (bitlen \<bar>M\<bar> - 1) = 23 + nat (bitlen \<bar>M\<bar> - 24)"
    using assms by simp
  from bitlen_bounds[OF pos] show ?thesis
    unfolding e1 by (simp add: power_add)
qed

lemma trunc_zero_bounds:
  assumes "of_int L \<le> scale2 m e" "scale2 m e \<le> of_int H" "L \<le> 0" "0 \<le> H"
  shows "L \<le> trunc_zero m e \<and> trunc_zero m e \<le> H"
proof (cases "0 \<le> scale2 m e")
  case True
  then have "0 \<le> \<lfloor>scale2 m e\<rfloor>" by simp
  moreover have "\<lfloor>scale2 m e\<rfloor> \<le> H" using assms(2) by (simp add: floor_le_iff)
  moreover have "trunc_zero m e = \<lfloor>scale2 m e\<rfloor>" using True by (simp add: trunc_zero_real)
  ultimately show ?thesis using assms(3) by linarith
next
  case False
  then have "\<lceil>scale2 m e\<rceil> \<le> 0" by (simp add: ceiling_le_iff)
  moreover have "L \<le> \<lceil>scale2 m e\<rceil>" using assms(1) by (simp add: le_ceiling_iff)
  moreover have "trunc_zero m e = \<lceil>scale2 m e\<rceil>" using False by (simp add: trunc_zero_real)
  ultimately show ?thesis using assms(4) by linarith
qed

lemma f32_round_finite:
  assumes "- 149 \<le> E"
    and "bitlen \<bar>rne M (nat (max (bitlen \<bar>M\<bar> - 24) 0))\<bar> + (E + max (bitlen \<bar>M\<bar> - 24) 0) \<le> 128"
  shows "\<exists>a b. f32_round M E = Finite a b"
proof -
  define k where "k = max (bitlen \<bar>M\<bar> - 24) 0"
  define m' where "m' = rne M (nat k)"
  have k: "max (max (bitlen \<bar>M\<bar> - 24) (- 149 - E)) 0 = k"
    using assms(1) by (simp add: k_def)
  have r: "f32_round M E =
     (if 128 < bitlen \<bar>m'\<bar> + (E + k) then (if 0 < M then PInf else NInf)
         else if \<bar>m'\<bar> = 2 ^ 24 then Finite (m' div 2) (E + k + 1)
         else if 104 < E + k then Finite (m' * 2 ^ nat (E + k - 104)) 104
         else Finite m' (E + k))"
    unfolding f32_round_def k Let_def m'_def by simp
  have "\<not> 128 < bitlen \<bar>m'\<bar> + (E + k)" using assms(2) by (simp add: m'_def k_def)
  then show ?thesis unfolding r by simp
qed

lemma round_in_range:
  assumes E: "- 149 \<le> E" "E \<le> 104"
    and lo: "of_int L \<le> scale2 M E" and hi: "scale2 M E \<le> of_int H"
    and L: "- 32768 \<le> L" "L \<le> 0" and H: "0 \<le> H" "H \<le> 32768"
  shows "\<exists>a b. f32_round M E = Finite a b \<and> L \<le> trunc_zero a b \<and> trunc_zero a b \<le> H"
proof -
  define k where "k = max (bitlen \<bar>M\<bar> - 24) 0"
  define m' where "m' = rne M (nat k)"
  have key: "bitlen \<bar>m'\<bar> + (E + k) \<le> 128 \<and> of_int L \<le> scale2 m' (E + k)
      \<and> scale2 m' (E + k) \<le> of_int H"
  proof (cases "k = 0")
    case True
    then have "m' = M" by (simp add: m'_def rne_0)
    moreover have "bitlen \<bar>M\<bar> \<le> 24" using True by (simp add: k_def max_def split: if_splits)
    ultimately show ?thesis using True E lo hi by simp
  next
    case False
    then have kpos: "0 < k" and kk: "k = bitlen \<bar>M\<bar> - 24" and big: "24 < bitlen \<bar>M\<bar>"
      by (simp_all add: k_def max_def split: if_splits)
    define K :: int where "K = 2 ^ nat k"
    have Kpos: "0 < K" by (simp add: K_def)
    have mhi: "\<bar>m'\<bar> \<le> 2 ^ 24" using big_mantissa(2)[OF big] by (simp add: m'_def kk)
    have Mlo: "2 ^ 23 * K \<le> \<bar>M\<bar>" using big_mantissa_lo[OF big] by (simp add: K_def kk)
    have xb: "\<bar>scale2 M E\<bar> \<le> 32768" using lo hi L H by linarith
    have neg: "E + k \<le> 0"
    proof (rule ccontr)
      assume a: "\<not> E + k \<le> 0"
      show False
      proof (cases "0 \<le> E")
        case True
        have "1 \<le> (2::int) ^ nat E" by simp
        then have "\<bar>M\<bar> * 1 \<le> \<bar>M\<bar> * 2 ^ nat E" by (intro mult_left_mono) simp_all
        moreover have "(1::int) \<le> K" using Kpos by simp
        then have "2 ^ 23 * 1 \<le> 2 ^ 23 * K" by (intro mult_left_mono) simp_all
        ultimately have "2 ^ 23 \<le> \<bar>M * 2 ^ nat E\<bar>" using Mlo by (simp add: abs_mult)
        then have "real_of_int (2 ^ 23) \<le> real_of_int \<bar>M * 2 ^ nat E\<bar>"
          by (rule of_int_le_iff[THEN iffD2])
        moreover have "scale2 M E = of_int (M * 2 ^ nat E)" using True by (simp add: scale2_def)
        ultimately show False using xb by simp
      next
        case False
        define n where "n = nat (- E)"
        define N :: int where "N = 2 ^ n"
        have Npos: "0 < N" by (simp add: N_def)
        have "n + 1 \<le> nat k" using a False by (simp add: n_def)
        then have "(2::int) ^ (n + 1) \<le> 2 ^ nat k" by (intro power_increasing) simp_all
        then have KN: "2 * N \<le> K" by (simp add: K_def N_def)
        have sx: "scale2 M E = of_int M / of_int N" using False by (simp add: scale2_def n_def N_def)
        have "\<bar>real_of_int M\<bar> \<le> 32768 * of_int N"
          using xb Npos unfolding sx by (simp add: field_simps)
        then have "real_of_int \<bar>M\<bar> \<le> real_of_int (32768 * N)" by simp
        then have "\<bar>M\<bar> \<le> 32768 * N" by (simp only: of_int_le_iff)
        moreover have "2 ^ 23 * (2 * N) \<le> 2 ^ 23 * K" using KN by (intro mult_left_mono) simp_all
        ultimately show False using Mlo Npos by simp
      qed
    qed
    define s where "s = nat (- (E + k))"
    define P :: int where "P = 2 ^ s"
    have Ppos: "0 < P" by (simp add: P_def)
    have Eneg: "E < 0" using neg kpos by simp
    have nE: "nat (- E) = nat k + s" using neg kpos by (simp add: s_def)
    have sm': "scale2 m' (E + k) = of_int m' / of_int P"
      using neg by (cases "E + k = 0") (simp_all add: scale2_def P_def s_def)
    have sM: "scale2 M E = of_int M / (of_int K * of_int P)"
      using Eneg by (simp add: scale2_def nE power_add K_def P_def)
    have KP: "0 < real_of_int K * real_of_int P" using Kpos Ppos by simp
    have "real_of_int L * (of_int K * of_int P) \<le> of_int M"
      using lo KP unfolding sM by (simp add: pos_le_divide_eq)
    then have "real_of_int (L * P * K) \<le> of_int M" by (simp add: mult_ac)
    then have "L * P * K \<le> M" by (simp only: of_int_le_iff)
    then have "L * P \<le> m'" unfolding m'_def K_def by (rule rne_ge)
    then have "real_of_int L * of_int P \<le> of_int m'"
      by (metis of_int_le_iff of_int_mult)
    then have c1: "of_int L \<le> scale2 m' (E + k)"
      using Ppos unfolding sm' by (simp add: pos_le_divide_eq)
    have "of_int M \<le> real_of_int H * (of_int K * of_int P)"
      using hi KP unfolding sM by (simp add: pos_divide_le_eq)
    then have "of_int M \<le> real_of_int (H * P * K)" by (simp add: mult_ac)
    then have "M \<le> H * P * K" by (simp only: of_int_le_iff)
    then have "m' \<le> H * P" unfolding m'_def K_def by (rule rne_le)
    then have "of_int m' \<le> real_of_int H * of_int P"
      by (metis of_int_le_iff of_int_mult)
    then have c2: "scale2 m' (E + k) \<le> of_int H"
      using Ppos unfolding sm' by (simp add: pos_divide_le_eq)
    have "bitlen \<bar>m'\<bar> \<le> 25" using mhi by (simp add: bitlen_le_iff_power)
    then show ?thesis using c1 c2 neg by simp
  qed
  from key have "bitlen \<bar>rne M (nat (max (bitlen \<bar>M\<bar> - 24) 0))\<bar> + (E + max (bitlen \<bar>M\<bar> - 24) 0) \<le> 128"
    by (simp add: m'_def k_def)
  from f32_round_finite[OF E(1) this] obtain a b where ab: "f32_round M E = Finite a b" by blast
  have y: "scale2 a b = scale2 m' (E + k)"
    using f32_round_val[OF E(1) ab] by (simp add: m'_def k_def)
  have "L \<le> trunc_zero a b \<and> trunc_zero a b \<le> H"
    using key L H unfolding y[symmetric] by (intro trunc_zero_bounds) simp_all
  with ab show ?thesis by blast
qed

section \<open>Lemmas on the encoder\<close>

lemma f32_of_int_10: "f32_of_int 10 = Finite 10 0"
  by code_simp

lemma sint_int16: "- 32768 \<le> z \<Longrightarrow> z \<le> 32767 \<Longrightarrow> sint (word_of_int z :: 16 word) = z"
  by (simp add: signed_of_int signed_take_bit_int_eq_self)

lemma scale2_times_10: "scale2 (m * 10) e = 10 * scale2 m e"
  by (simp add: scale2_def)

lemma scaled_int16_finite:
  assumes v: "valid_f32 (Finite m e)"
    and lo: "of_int L \<le> 10 * f32_val (Finite m e)" and hi: "10 * f32_val (Finite m e) \<le> of_int H"
    and L: "- 32768 \<le> L" "L \<le> 0" and H: "0 \<le> H" "H \<le> 32767"
  shows "\<exists>a b. f32_mul (Finite m e) (f32_of_int 10) = Finite a b
           \<and> sint (scaled_int16 w (Finite m e)) = trunc_zero a b
           \<and> L \<le> trunc_zero a b \<and> trunc_zero a b \<le> H
           \<and> \<bar>real_of_int (trunc_zero a b) - 10 * f32_val (Finite m e)\<bar> < 1"
proof -
  have E: "- 149 \<le> e" "e \<le> 104" using v by simp_all
  have mul: "f32_mul (Finite m e) (f32_of_int 10) = f32_round (m * 10) e"
    by (simp add: f32_of_int_10)
  have x: "scale2 (m * 10) e = 10 * f32_val (Finite m e)" by (simp add: scale2_times_10)
  from round_in_range[OF E, of L "m * 10" H] lo hi L H x
  obtain a b where ab: "f32_round (m * 10) e = Finite a b"
    and t: "L \<le> trunc_zero a b" "trunc_zero a b \<le> H" by auto
  have tb: "\<bar>trunc_zero a b\<bar> \<le> 32768" using t L H by linarith
  have err: "\<bar>real_of_int (trunc_zero a b) - 10 * f32_val (Finite m e)\<bar> < 1"
    using cast_err[OF E(1) ab tb] unfolding x .
  have "scaled_int16 w (Finite m e) = word_of_int (trunc_zero a b)"
    using t L H by (simp add: scaled_int16_def mul ab astype_int16_def)
  then have "sint (scaled_int16 w (Finite m e)) = trunc_zero a b"
    using t L H by (simp add: sint_int16)
  with mul ab t err show ?thesis by simp
qed

lemma save_success:
  assumes "save_temperature_tiff w d g md p c = (Inr True, d')"
  shows "\<exists>f. d' p = Some (Tiff f) \<and> raster f = map_ndarray (scaled_int16 w) g"
  using assms
  by (auto simp: save_temperature_tiff_def save_temperature_tiff_try_def Let_def
           split: if_splits option.splits save_outcome.splits prod.splits sum.splits)

lemma persisted_values_save:
  assumes "save_temperature_tiff w d g md p c = (Inr True, d')"
  shows "persisted_values d' p = Some (map (map (\<lambda>t. sint (scaled_int16 w t))) (rows g))"
proof -
  from save_success[OF assms] obtain f where "d' p = Some (Tiff f)"
    and "raster f = map_ndarray (scaled_int16 w) g" by blast
  then show ?thesis by (simp add: persisted_values_def map_ndarray_def comp_def)
qed

lemma model_range:
  assumes "get_model_config model = Inr cfg"
  shows "- 20 \<le> fst (temperature_range cfg) \<and> snd (temperature_range cfg) \<le> 1600"
  using assms
  by (auto simp: get_model_config_def DRONE_MODELS_def Let_def split: if_splits)

lemma demo_run_eq:
  "demo_run t =
     (Inr True,
      [''out.tiff'' \<mapsto> Tiff
         \<lparr>raster = \<lparr>shape = (1, 1), rows = [[scaled_int16 demo_world t]]\<rparr>,
          compression_of = ''lzw'',
          tag_270_ImageDescription = the (json_dumps demo_world demo_metadata),
          tag_305_Software = ''DJI Thermal Converter with SDK v1.0'',
          tag_306_DateTime = ''2024:01:01 00:00:00'',
          tag_269_DocumentName = ''DJI R-JPEG Temperature Data''\<rparr>])"
  by (simp add: demo_run_def save_temperature_tiff_def save_temperature_tiff_try_def
      demo_world_def demo_grid_def map_ndarray_def scaled_int16_def)

lemma demo_run_values:
  "fst (demo_run t) = Inr True
   \<and> persisted_values (snd (demo_run t)) ''out.tiff'' = Some [[sint (scaled_int16 demo_world t)]]"
  by (simp add: demo_run_eq persisted_values_def)

lemma scaled_7_8: "scaled_int16 demo_world (Finite 7 (- 3)) = 8"
  by (simp add: scaled_int16_def f32_of_int_10 f32_round_def astype_int16_def trunc_zero_def
      rne_def compute_bitlen Let_def)

lemma scaled_4000: "scaled_int16 demo_world (Finite 4000 0) = - 25536"
  by (simp add: scaled_int16_def f32_of_int_10 f32_round_def astype_int16_def trunc_zero_def
      rne_def compute_bitlen Let_def demo_world_def demo_cast_oor_def)

lemma astype_int16_oor: "\<not> fits_int16 y \<Longrightarrow> astype_int16 oor y = oor y"
  by (cases y) (auto simp: fits_int16_def astype_int16_def Let_def)

lemma save_all_succeed:
  assumes "os_path_dirname w p = [] \<or> os_makedirs w (os_path_dirname w p)"
    and "Image_fromarray w (map_ndarray (scaled_int16 w) g)"
    and "json_dumps w md = Some s"
    and "Image_save w p c = Saved"
  shows "fst (save_temperature_tiff w d g md p c) = Inr True"
    and "persisted_values (snd (save_temperature_tiff w d g md p c)) p =
           Some (map (map (\<lambda>t. sint (scaled_int16 w t))) (rows g))"
proof -
  show "fst (save_temperature_tiff w d g md p c) = Inr True"
    using assms
    by (auto simp: save_temperature_tiff_def save_temperature_tiff_try_def Let_def)
  then have "save_temperature_tiff w d g md p c =
      (Inr True, snd (save_temperature_tiff w d g md p c))"
    by (metis prod.collapse)
  then show "persisted_values (snd (save_temperature_tiff w d g md p c)) p =
           Some (map (map (\<lambda>t. sint (scaled_int16 w t))) (rows g))"
    by (rule persisted_values_save)
qed

section \<open>Lemmas on the registry, the generator and the batch\<close>

lemma upper_char_idem: "upper_char (upper_char c) = upper_char c"
proof (cases "97 \<le> (of_char c :: nat) \<and> (of_char c :: nat) \<le> 122")
  case True
  then have "(of_char c - 32 :: nat) < 256" by arith
  then have "(of_char (char_of (of_char c - 32 :: nat)) :: nat) = of_char c - 32"
    by simp
  moreover have "\<not> (97 \<le> (of_char c - 32 :: nat) \<and> (of_char c - 32 :: nat) \<le> 122)"
    using True by arith
  ultimately show ?thesis using True by (auto simp: upper_char_def Let_def)
next
  case False
  then have "upper_char c = c" by (auto simp: upper_char_def Let_def)
  then show ?thesis by simp
qed

lemma upper_idem: "upper (upper s) = upper s"
  by (simp add: upper_def upper_char_idem)

lemma upper_m30t: "upper ''m30t'' = ''M30T''"
  by code_simp

lemma upper_M30T: "upper ''M30T'' = ''M30T''"
  by code_simp

lemma upper_X9: "upper ''X9'' = ''X9''"
  by code_simp

lemma create_mock_Some:
  "create_mock_temperature_data ops self (Some (width, height)) =
     (if height < 0 \<or> width < 0 then Inl ValueError
      else Inr \<lparr>shape = (nat height, nat width),
                rows = map (\<lambda>i. map (\<lambda>j. mock_pixel ops width height (int i) (int j))
                               [0..<nat width]) [0..<nat height]\<rparr>)"
  by (simp add: create_mock_temperature_data_def)

lemma parse_is_create:
  "parse_rjpeg_with_sdk ops self data res = create_mock_temperature_data ops self res"
  by (simp add: parse_rjpeg_with_sdk_def)


lemma save_result:
  "fst (save_temperature_tiff w d g md p c) =
     Inr ((os_path_dirname w p = [] \<or> os_makedirs w (os_path_dirname w p))
          \<and> Image_fromarray w (map_ndarray (scaled_int16 w) g)
          \<and> json_dumps w md \<noteq> None
          \<and> Image_save w p c = Saved)"
  by (auto simp: save_temperature_tiff_def save_temperature_tiff_try_def Let_def
           split: option.splits save_outcome.splits)

lemma convert_result:
  "fst (convert_rjpeg_to_tiff ops self w d input_path output_path) =
     Inr (case extract_temperature_data ops self w input_path of
            Inl e \<Rightarrow> False
          | Inr (temperature_data, md) \<Rightarrow>
              fst (save_temperature_tiff w d temperature_data md output_path ''lzw'') = Inr True
              \<and> fst (shape temperature_data) * snd (shape temperature_data) \<noteq> 0)"
proof (cases "extract_temperature_data ops self w input_path")
  case (Inl e)
  then show ?thesis
    by (simp add: convert_rjpeg_to_tiff_def convert_rjpeg_to_tiff_try_def)
next
  case (Inr x)
  obtain td md where x: "x = (td, md)" by (cases x)
  obtain b where b: "fst (save_temperature_tiff w d td md output_path ''lzw'') = Inr b"
    using save_result[of w d td md output_path "''lzw''"] by blast
  obtain d' where s: "save_temperature_tiff w d td md output_path ''lzw'' = (Inr b, d')"
    using b by (cases "save_temperature_tiff w d td md output_path ''lzw''") simp
  show ?thesis using Inr x s
    by (cases b) (simp_all add: convert_rjpeg_to_tiff_def convert_rjpeg_to_tiff_try_def)
qed

lemma convert_one_counts:
  "total (fst (convert_one ops self w input_dir output_dir f (r, d))) = total r
   \<and> success (fst (convert_one ops self w input_dir output_dir f (r, d)))
       + failed (fst (convert_one ops self w input_dir output_dir f (r, d)))
       = success r + failed r + 1"
  by (simp add: convert_one_def Let_def split: option.splits prod.splits sum.splits bool.splits)

lemma convert_all_counts:
  "total (fst (convert_all ops self w input_dir output_dir fs rd)) = total (fst rd)
   \<and> success (fst (convert_all ops self w input_dir output_dir fs rd))
       + failed (fst (convert_all ops self w input_dir output_dir fs rd))
       = success (fst rd) + failed (fst rd) + length fs"
proof (induction fs arbitrary: rd)
  case Nil
  then show ?case by simp
next
  case (Cons f fs)
  obtain r d where rd: "rd = (r, d)" by (cases rd)
  show ?case
    using Cons.IH[of "convert_one ops self w input_dir output_dir f (r, d)"]
      convert_one_counts[of ops self w input_dir output_dir f r d]
    by (simp add: rd)
qed

lemma convert_one_step:
  "fst (convert_one ops self w input_dir output_dir f (r, d)) =
     (if (case os_path_relpath w f input_dir of
            None \<Rightarrow> False
          | Some relative_path \<Rightarrow>
              fst (convert_rjpeg_to_tiff ops self w d f
                     (os_path_join w output_dir
                        (fst (os_path_splitext w relative_path) @ ''.tiff''))) = Inr True)
      then r\<lparr>success := success r + 1\<rparr>
      else r\<lparr>failed := failed r + 1\<rparr>)"
  by (simp add: convert_one_def Let_def split: option.splits prod.splits sum.splits bool.splits)

section \<open>The claims about the raster encoder\<close>

text \<open>
  C1, as the code has it. The encoder does not round. When \<open>save_temperature_tiff\<close>
  returns \<open>True\<close>, the value persisted for a finite temperature \<open>t\<close> whose tenfold lies in
  \<open>[-32768, 32767]\<close> is the float32 product \<open>t * 10\<close> with its fraction dropped (truncation
  towards zero), and it differs from \<open>10 * t\<close> by less than 1, that is by less than 0.1
  degree.
\<close>

theorem save_temperature_tiff_truncates:
  assumes "save_temperature_tiff w d g md p c = (Inr True, d')"
    and "i < length (rows g)" and "j < length (rows g ! i)"
    and "valid_f32 (rows g ! i ! j)" and "is_finite (rows g ! i ! j)"
    and "- 32768 \<le> 10 * f32_val (rows g ! i ! j)" and "10 * f32_val (rows g ! i ! j) \<le> 32767"
  shows "\<exists>vs y. persisted_values d' p = Some vs
           \<and> y = f32_val (f32_mul (rows g ! i ! j) (f32_of_int 10))
           \<and> is_finite (f32_mul (rows g ! i ! j) (f32_of_int 10))
           \<and> vs ! i ! j = (if 0 \<le> y then \<lfloor>y\<rfloor> else \<lceil>y\<rceil>)
           \<and> \<bar>real_of_int (vs ! i ! j) - 10 * f32_val (rows g ! i ! j)\<bar> < 1"
proof -
  define t where "t = rows g ! i ! j"
  obtain m e where te: "t = Finite m e"
    using assms(5) unfolding t_def[symmetric] by (cases t) simp_all
  have v: "valid_f32 (Finite m e)" using assms(4) by (simp add: t_def[symmetric] te)
  have lo: "real_of_int (- 32768) \<le> 10 * f32_val (Finite m e)"
    using assms(6) by (simp add: t_def[symmetric] te)
  have hi: "10 * f32_val (Finite m e) \<le> real_of_int 32767"
    using assms(7) by (simp add: t_def[symmetric] te)
  from scaled_int16_finite[OF v lo hi, of w]
  obtain a b where ab: "f32_mul (Finite m e) (f32_of_int 10) = Finite a b"
    and s: "sint (scaled_int16 w (Finite m e)) = trunc_zero a b"
    and err: "\<bar>real_of_int (trunc_zero a b) - 10 * f32_val (Finite m e)\<bar> < 1" by auto
  have pv: "persisted_values d' p = Some (map (map (\<lambda>t. sint (scaled_int16 w t))) (rows g))"
    by (rule persisted_values_save[OF assms(1)])
  have cell: "map (map (\<lambda>t. sint (scaled_int16 w t))) (rows g) ! i ! j = trunc_zero a b"
    using assms(2,3) s by (simp add: t_def[symmetric] te)
  have tz: "trunc_zero a b = (if 0 \<le> f32_val (Finite a b) then \<lfloor>f32_val (Finite a b)\<rfloor>
      else \<lceil>f32_val (Finite a b)\<rceil>)"
    by (simp add: trunc_zero_real)
  show ?thesis
    using pv cell tz err ab by (simp add: t_def[symmetric] te)
qed

text \<open>The theorem at the temperature 0.875: the persisted value is 8.\<close>

theorem save_temperature_tiff_truncates_witness:
  "demo_run (Finite 7 (- 3)) = (Inr True, snd (demo_run (Finite 7 (- 3))))
   \<and> (\<exists>vs y. persisted_values (snd (demo_run (Finite 7 (- 3)))) ''out.tiff'' = Some vs
         \<and> y = f32_val (f32_mul (Finite 7 (- 3)) (f32_of_int 10))
         \<and> is_finite (f32_mul (Finite 7 (- 3)) (f32_of_int 10))
         \<and> vs ! 0 ! 0 = (if 0 \<le> y then \<lfloor>y\<rfloor> else \<lceil>y\<rceil>)
         \<and> \<bar>real_of_int (vs ! 0 ! 0) - 10 * f32_val (Finite 7 (- 3))\<bar> < 1)"
proof -
  have run: "demo_run (Finite 7 (- 3)) = (Inr True, snd (demo_run (Finite 7 (- 3))))"
    by (simp add: demo_run_eq)
  have h1: "save_temperature_tiff demo_world Map.empty (demo_grid (Finite 7 (- 3)))
      demo_metadata ''out.tiff'' ''lzw'' = (Inr True, snd (demo_run (Finite 7 (- 3))))"
    unfolding demo_run_def[symmetric] by (rule run)
  have c: "rows (demo_grid (Finite 7 (- 3))) ! 0 ! 0 = Finite 7 (- 3)"
    by (simp add: demo_grid_def)
  have h2: "0 < length (rows (demo_grid (Finite 7 (- 3))))" by (simp add: demo_grid_def)
  have h3: "0 < length (rows (demo_grid (Finite 7 (- 3))) ! 0)" by (simp add: demo_grid_def)
  have h4: "valid_f32 (rows (demo_grid (Finite 7 (- 3))) ! 0 ! 0)" unfolding c by simp
  have h5: "is_finite (rows (demo_grid (Finite 7 (- 3))) ! 0 ! 0)" unfolding c by simp
  have h6: "- 32768 \<le> 10 * f32_val (rows (demo_grid (Finite 7 (- 3))) ! 0 ! 0)"
    unfolding c by (simp add: scale2_def)
  have h7: "10 * f32_val (rows (demo_grid (Finite 7 (- 3))) ! 0 ! 0) \<le> 32767"
    unfolding c by (simp add: scale2_def)
  from save_temperature_tiff_truncates[OF h1 h2 h3 h4 h5 h6 h7]
  show ?thesis unfolding c using run by blast
qed

text \<open>
  C1 as the specification states it fails: 0.875 times 10 is 8.75, which rounds to 9, and
  the encoder persists 8.
\<close>

theorem scaling_is_not_rounding:
  "fst (demo_run (Finite 7 (- 3))) = Inr True
   \<and> persisted_values (snd (demo_run (Finite 7 (- 3)))) ''out.tiff'' = Some [[8]]
   \<and> 10 * f32_val (Finite 7 (- 3)) = 35 / 4
   \<and> round (10 * f32_val (Finite 7 (- 3))) = 9"
  by (simp add: demo_run_values scaled_7_8 scale2_def round_def)

text \<open>
  C2, as the code has it. The encoder has no range check and no overflow failure.
  Whenever the directory can be made, the image built, the metadata serialised and the
  file written, it returns \<open>True\<close> and the file is at the output path, whatever the
  temperatures are; a temperature whose float32 product with 10 does not fit int16 is
  persisted as the value the platform's cast gives for that product.
\<close>

theorem save_temperature_tiff_no_range_check:
  assumes "os_path_dirname w p = [] \<or> os_makedirs w (os_path_dirname w p)"
    and "Image_fromarray w (map_ndarray (scaled_int16 w) g)"
    and "json_dumps w md = Some s"
    and "Image_save w p c = Saved"
    and "i < length (rows g)" and "j < length (rows g ! i)"
    and "\<not> fits_int16 (f32_mul (rows g ! i ! j) (f32_of_int 10))"
  shows "fst (save_temperature_tiff w d g md p c) = Inr True
       \<and> (\<exists>vs. persisted_values (snd (save_temperature_tiff w d g md p c)) p = Some vs
              \<and> vs ! i ! j = sint (cast_oor w (f32_mul (rows g ! i ! j) (f32_of_int 10))))"
proof -
  have "scaled_int16 w (rows g ! i ! j) = cast_oor w (f32_mul (rows g ! i ! j) (f32_of_int 10))"
    unfolding scaled_int16_def by (rule astype_int16_oor[OF assms(7)])
  then have "map (map (\<lambda>t. sint (scaled_int16 w t))) (rows g) ! i ! j =
      sint (cast_oor w (f32_mul (rows g ! i ! j) (f32_of_int 10)))"
    using assms(5,6) by simp
  with save_all_succeed[OF assms(1-4), of d] show ?thesis by simp
qed

text \<open>The theorem at the temperature 4000: the file is written and holds -25536.\<close>

theorem save_temperature_tiff_no_range_check_witness:
  "\<not> fits_int16 (f32_mul (Finite 4000 0) (f32_of_int 10))
   \<and> fst (demo_run (Finite 4000 0)) = Inr True
   \<and> (\<exists>vs. persisted_values (snd (demo_run (Finite 4000 0))) ''out.tiff'' = Some vs
          \<and> vs ! 0 ! 0 = sint (cast_oor demo_world (f32_mul (Finite 4000 0) (f32_of_int 10))))"
proof -
  have nf: "\<not> fits_int16 (f32_mul (Finite 4000 0) (f32_of_int 10))"
    by (simp add: f32_of_int_10 f32_round_def rne_def compute_bitlen Let_def fits_int16_def
        trunc_zero_def)
  have c: "rows (demo_grid (Finite 4000 0)) ! 0 ! 0 = Finite 4000 0"
    by (simp add: demo_grid_def)
  have h1: "os_path_dirname demo_world ''out.tiff'' = []
      \<or> os_makedirs demo_world (os_path_dirname demo_world ''out.tiff'')"
    by (simp add: demo_world_def)
  have h2: "Image_fromarray demo_world
      (map_ndarray (scaled_int16 demo_world) (demo_grid (Finite 4000 0)))"
    by (simp add: demo_world_def)
  have h3: "json_dumps demo_world demo_metadata = Some (the (json_dumps demo_world demo_metadata))"
    by (simp add: demo_world_def)
  have h4: "Image_save demo_world ''out.tiff'' ''lzw'' = Saved" by (simp add: demo_world_def)
  have h5: "0 < length (rows (demo_grid (Finite 4000 0)))" by (simp add: demo_grid_def)
  have h6: "0 < length (rows (demo_grid (Finite 4000 0)) ! 0)" by (simp add: demo_grid_def)
  have h7: "\<not> fits_int16 (f32_mul (rows (demo_grid (Finite 4000 0)) ! 0 ! 0) (f32_of_int 10))"
    unfolding c by (rule nf)
  from save_temperature_tiff_no_range_check[OF h1 h2 h3 h4 h5 h6 h7, of Map.empty]
  show ?thesis unfolding c demo_run_def[symmetric] using nf by blast
qed

text \<open>
  C2 as the specification states it fails: 4000 degrees scale to 40000, beyond int16, and
  the encoder returns \<open>True\<close> and leaves a file, which holds -25536.
\<close>

theorem overflow_is_written:
  "\<not> (10 * f32_val (Finite 4000 0) \<le> 32767)
   \<and> fst (demo_run (Finite 4000 0)) = Inr True
   \<and> snd (demo_run (Finite 4000 0)) ''out.tiff'' \<noteq> None
   \<and> persisted_values (snd (demo_run (Finite 4000 0))) ''out.tiff'' = Some [[- 25536]]"
  by (simp add: demo_run_values scaled_4000 scale2_def) (simp add: demo_run_eq)

text \<open>
  C3, as the code has it. For a finite float32 temperature inside the range of a model,
  the persisted value divided by 10 is within 0.1 degree of the temperature (not within
  0.05: the encoder truncates).
\<close>

theorem round_trip_within_a_tenth:
  assumes "valid_f32 t" and "is_finite t"
    and "validate_temperature_range (f32_val t) model = Inr True"
  shows "\<bar>real_of_int (sint (scaled_int16 w t)) / 10 - f32_val t\<bar> < 1 / 10"
proof -
  obtain m e where te: "t = Finite m e" using assms(2) by (cases t) simp_all
  obtain cfg where cfg: "get_model_config model = Inr cfg"
    and r: "of_int (fst (temperature_range cfg)) \<le> f32_val t"
           "f32_val t \<le> of_int (snd (temperature_range cfg))"
    using assms(3)
    by (auto simp: validate_temperature_range_def Let_def split: sum.splits prod.splits)
  from model_range[OF cfg] have "real_of_int (- 20) \<le> of_int (fst (temperature_range cfg))"
    and "real_of_int (snd (temperature_range cfg)) \<le> of_int 1600"
    by (simp_all only: of_int_le_iff)
  with r have lo: "real_of_int (- 200) \<le> 10 * f32_val (Finite m e)"
    and hi: "10 * f32_val (Finite m e) \<le> real_of_int 16000"
    unfolding te by simp_all
  have v: "valid_f32 (Finite m e)" using assms(1) by (simp add: te)
  from scaled_int16_finite[OF v lo hi, of w]
  obtain a b where s: "sint (scaled_int16 w (Finite m e)) = trunc_zero a b"
    and err: "\<bar>real_of_int (trunc_zero a b) - 10 * f32_val (Finite m e)\<bar> < 1" by auto
  have "\<bar>V / 10 - X\<bar> < 1 / 10" if "\<bar>V - 10 * X\<bar> < 1" for V X :: real
    using that by linarith
  from this[OF err] show ?thesis unfolding te s .
qed

text \<open>The theorem at 0.875 degrees and the model M30T.\<close>

theorem round_trip_within_a_tenth_witness:
  "valid_f32 (Finite 7 (- 3)) \<and> is_finite (Finite 7 (- 3))
   \<and> validate_temperature_range (f32_val (Finite 7 (- 3))) ''M30T'' = Inr True
   \<and> \<bar>real_of_int (sint (scaled_int16 demo_world (Finite 7 (- 3)))) / 10
        - f32_val (Finite 7 (- 3))\<bar> < 1 / 10"
proof -
  have v: "validate_temperature_range (f32_val (Finite 7 (- 3))) ''M30T'' = Inr True"
    by (simp add: scale2_def validate_temperature_range_def get_model_config_def
        DRONE_MODELS_def upper_def upper_char_def)
  from round_trip_within_a_tenth[of "Finite 7 (- 3)" "''M30T''" demo_world, OF _ _ v]
  show ?thesis using v by simp
qed

text \<open>
  C3 as the specification states it fails: 0.875 is in the range of the M30T, it is
  persisted as 8, and 0.8 is 0.075 away from it.
\<close>

theorem round_trip_exceeds_half_tenth:
  "validate_temperature_range (f32_val (Finite 7 (- 3))) ''M30T'' = Inr True
   \<and> real_of_int (sint (scaled_int16 demo_world (Finite 7 (- 3)))) / 10 = 8 / 10
   \<and> f32_val (Finite 7 (- 3)) = 7 / 8
   \<and> 5 / 100 < \<bar>real_of_int (sint (scaled_int16 demo_world (Finite 7 (- 3)))) / 10
                  - f32_val (Finite 7 (- 3))\<bar>"
  by (simp add: scaled_7_8 scale2_def validate_temperature_range_def get_model_config_def
      DRONE_MODELS_def upper_def upper_char_def)

section \<open>The claims about the synthetic generator\<close>



text \<open>
  C5. The generated grid is a function of the resolution alone (and of the float
  operations of the platform): two converters, whatever their state, and two byte buffers
  give the same grid for the same \<open>(width, height)\<close>.
\<close>

theorem create_mock_temperature_data_deterministic:
  "create_mock_temperature_data ops self1 (Some (width, height)) =
     create_mock_temperature_data ops self2 (Some (width, height))
   \<and> parse_rjpeg_with_sdk ops self1 data1 (Some (width, height)) =
       parse_rjpeg_with_sdk ops self2 data2 (Some (width, height))"
  by (simp add: create_mock_temperature_data_def parse_rjpeg_with_sdk_def)

text \<open>
  C6, as the code has it. The decode operation does not read the bytes: an empty buffer
  gives the same result as any other, and there is no failure for it. A resolution with a
  negative width or height fails with the \<open>ValueError\<close> of the array allocation; a width or
  height of 0 does not fail and gives a grid of that shape, with no element.
\<close>

theorem parse_rjpeg_with_sdk_failures:
  "parse_rjpeg_with_sdk ops self data (Some (width, height)) =
     parse_rjpeg_with_sdk ops self [] (Some (width, height))
   \<and> (if height < 0 \<or> width < 0
       then parse_rjpeg_with_sdk ops self data (Some (width, height)) = Inl ValueError
       else (case parse_rjpeg_with_sdk ops self data (Some (width, height)) of
               Inl e \<Rightarrow> False
             | Inr g \<Rightarrow> shape g = (nat height, nat width)
                        \<and> length (rows g) = nat height
                        \<and> list_all (\<lambda>r. length r = nat width) (rows g)))"
  by (simp add: parse_is_create create_mock_Some list_all_iff)

text \<open>
  C6 as the specification states it fails: an empty buffer with the resolution 2 by 1
  gives a grid, and so does an empty buffer with width 0 or with height 0.
\<close>

theorem parse_rjpeg_with_sdk_accepts_empty:
  "map_sum id shape
     (parse_rjpeg_with_sdk real_ops (DJIThermalConverter demo_world None) [] (Some (2, 1)))
     = Inr (1, 2)
   \<and> parse_rjpeg_with_sdk real_ops (DJIThermalConverter demo_world None) [] (Some (0, 3))
     = Inr \<lparr>shape = (3, 0), rows = [[], [], []]\<rparr>
   \<and> parse_rjpeg_with_sdk real_ops (DJIThermalConverter demo_world None) [] (Some (3, 0))
     = Inr \<lparr>shape = (0, 3), rows = []\<rparr>"
  by (simp add: parse_is_create create_mock_Some upt_rec)

section \<open>The claims about the registry and the resolution\<close>

text \<open>
  C7. \<open>get_model_config\<close> uppercases the id before the lookup, so an id and its uppercase
  give the same result; it raises \<open>ValueError\<close> exactly when the uppercased id is not one
  of M30T, H20T, H30T, M2EA, and returns the entry otherwise. \<open>m30t\<close> and \<open>M30T\<close> agree, and
  \<open>X9\<close> fails.
\<close>

theorem get_model_config_case_insensitive:
  "get_model_config (upper model) = get_model_config model
   \<and> (get_model_config model = Inl ValueError
        \<longleftrightarrow> upper model \<notin> {''M30T'', ''H20T'', ''H30T'', ''M2EA''})
   \<and> (get_model_config model \<noteq> Inl ValueError
        \<longleftrightarrow> get_model_config model = Inr (the (map_of DRONE_MODELS (upper model))))
   \<and> get_model_config ''m30t'' = get_model_config ''M30T''
   \<and> get_model_config ''X9'' = Inl ValueError"
proof -
  have a: "get_model_config (upper model) = get_model_config model"
    by (simp add: get_model_config_def upper_idem)
  have b: "get_model_config model = Inl ValueError
        \<longleftrightarrow> upper model \<notin> {''M30T'', ''H20T'', ''H30T'', ''M2EA''}"
    by (simp add: get_model_config_def DRONE_MODELS_def Let_def)
  have c: "get_model_config model \<noteq> Inl ValueError
        \<longleftrightarrow> get_model_config model = Inr (the (map_of DRONE_MODELS (upper model)))"
    by (simp add: get_model_config_def Let_def split: option.splits)
  have d: "get_model_config ''m30t'' = get_model_config ''M30T''"
    by (simp add: get_model_config_def upper_m30t upper_M30T)
  have e: "get_model_config ''X9'' = Inl ValueError"
    by (simp add: get_model_config_def DRONE_MODELS_def upper_X9)
  from a b c d e show ?thesis by blast
qed

text \<open>
  C8. For a converter as \<open>__init__\<close> leaves it, resolution detection never raises: it
  returns the size read from the container when the image opens, and the resolution of
  the default model in the converter's own table (M30T, 1280 by 1024) when it does not.
\<close>

theorem detect_image_resolution_falls_back:
  "detect_image_resolution (DJIThermalConverter w0 sdkp) w image_path =
     Inr (case Image_open_size w image_path of
            Some (width, height) \<Rightarrow> (width, height)
          | None \<Rightarrow> (1280, 1024))
   \<and> default_resolution (DJIThermalConverter w0 sdkp) = Inr (1280, 1024)"
  by (simp add: detect_image_resolution_def default_resolution_def DJIThermalConverter_def
      Let_def split: option.splits prod.splits)

section \<open>The claims about the batch and the handlers\<close>

text \<open>
  C9. In the result of \<open>batch_convert\<close>, \<open>success + failed = total\<close>; \<open>total\<close> is the number
  of candidates found by the walk (0 when the walk raises), it is set before the first
  conversion and no conversion changes it; each file adds one to \<open>success\<close> when its
  conversion returns \<open>True\<close> and one to \<open>failed\<close> otherwise, and the loop goes on.
\<close>

theorem batch_convert_counts:
  "success (fst (batch_convert ops self w d input_dir output_dir recursive))
     + failed (fst (batch_convert ops self w d input_dir output_dir recursive))
     = total (fst (batch_convert ops self w d input_dir output_dir recursive))
   \<and> total (fst (batch_convert ops self w d input_dir output_dir recursive))
     = (case os_walk w input_dir of
          None \<Rightarrow> 0
        | Some walk \<Rightarrow> length (find_rjpeg_files w walk recursive))
   \<and> total (fst (convert_all ops self w input_dir output_dir fs (r, d'))) = total r
   \<and> fst (convert_one ops self w input_dir output_dir f (r, d')) =
     (if (case os_path_relpath w f input_dir of
            None \<Rightarrow> False
          | Some relative_path \<Rightarrow>
              fst (convert_rjpeg_to_tiff ops self w d' f
                     (os_path_join w output_dir
                        (fst (os_path_splitext w relative_path) @ ''.tiff''))) = Inr True)
      then r\<lparr>success := success r + 1\<rparr>
      else r\<lparr>failed := failed r + 1\<rparr>)"
proof -
  have a: "success (fst (batch_convert ops self w d input_dir output_dir recursive))
     + failed (fst (batch_convert ops self w d input_dir output_dir recursive))
     = total (fst (batch_convert ops self w d input_dir output_dir recursive))
   \<and> total (fst (batch_convert ops self w d input_dir output_dir recursive))
     = (case os_walk w input_dir of
          None \<Rightarrow> 0
        | Some walk \<Rightarrow> length (find_rjpeg_files w walk recursive))"
  proof (cases "os_walk w input_dir")
    case None
    then show ?thesis by (simp add: batch_convert_def)
  next
    case (Some walk)
    then show ?thesis
      using convert_all_counts[of ops self w input_dir output_dir
          "find_rjpeg_files w walk recursive"
          "(\<lparr>success = 0, failed = 0, total = length (find_rjpeg_files w walk recursive)\<rparr>, d)"]
      by (simp add: batch_convert_def Let_def)
  qed
  have b: "total (fst (convert_all ops self w input_dir output_dir fs (r, d'))) = total r"
    using convert_all_counts[of ops self w input_dir output_dir fs "(r, d')"] by simp
  show ?thesis using a b convert_one_step[of ops self w input_dir output_dir f r d'] by blast
qed

text \<open>
  C10. Neither \<open>save_temperature_tiff\<close> nor \<open>convert_rjpeg_to_tiff\<close> raises: the result is
  always a boolean. The encoder returns \<open>True\<close> exactly when the directory, the image, the
  serialisation and the write all succeed, and \<open>False\<close> when the writer raises (an unknown
  compression name, an I/O error); the conversion returns \<open>True\<close> exactly when the
  extraction succeeds, the encoder returns \<open>True\<close> and the grid has an element.
\<close>

theorem encode_and_convert_never_raise:
  "fst (save_temperature_tiff w d g md p c) =
     Inr ((os_path_dirname w p = [] \<or> os_makedirs w (os_path_dirname w p))
          \<and> Image_fromarray w (map_ndarray (scaled_int16 w) g)
          \<and> json_dumps w md \<noteq> None
          \<and> Image_save w p c = Saved)
   \<and> (case Image_save w p c of
         SaveRaised partial \<Rightarrow> fst (save_temperature_tiff w d g md p c) = Inr False
       | Saved \<Rightarrow> True)
   \<and> fst (convert_rjpeg_to_tiff ops self w d input_path output_path) =
     Inr (case extract_temperature_data ops self w input_path of
            Inl e \<Rightarrow> False
          | Inr (temperature_data, md') \<Rightarrow>
              fst (save_temperature_tiff w d temperature_data md' output_path ''lzw'') = Inr True
              \<and> fst (shape temperature_data) * snd (shape temperature_data) \<noteq> 0)"
proof -
  have "case Image_save w p c of
         SaveRaised partial \<Rightarrow> fst (save_temperature_tiff w d g md p c) = Inr False
       | Saved \<Rightarrow> True"
    by (simp add: save_result split: save_outcome.splits)
  with save_result[of w d g md p c] convert_result[of ops self w d input_path output_path]
  show ?thesis by blast
qed

end
